theory Spec2Isabelle
  imports Complex_Main
begin

section \<open>HospitalFinder: coordinate keys, hospital sync and appointment creation\<close>

text \<open>
  A shallow embedding of \<^verbatim>\<open>src/components/HospitalFinder.tsx\<close>: the helper
  \<^verbatim>\<open>toKey\<close>, the function \<^verbatim>\<open>syncHospitalsAround\<close> from the provider's answer
  onwards, and \<^verbatim>\<open>createAppointmentFor\<close>.

  Numbers. A JavaScript number that is finite is a binary fraction, hence a rational; the
  coordinates are modelled as \<^typ>\<open>rat\<close>. JSON has no NaN and no infinity, so the
  provider cannot deliver one. Only comparison with zero, negation, and
  \<^verbatim>\<open>toFixed\<close> are applied to coordinates, and these are exact on the rational value.
  Strings are \<^typ>\<open>string\<close>.
\<close>

subsection \<open>Number.prototype.toFixed and toKey\<close>

text \<open>
  Decimal digits of a natural number, without leading zeros.
\<close>

function showNat :: "nat \<Rightarrow> string" where
  "showNat n = (if n < 10 then [''0123456789'' ! n]
                else showNat (n div 10) @ [''0123456789'' ! (n mod 10)])"
  by pat_completeness auto
termination
  by (relation "measure (\<lambda>n. n)") auto

declare showNat.simps [simp del]

text \<open>
  \<^verbatim>\<open>x.toFixed(f)\<close> as ECMAScript defines it for a finite \<open>x\<close> of magnitude below
  \<open>10\<^sup>2\<^sup>1\<close>: a negative \<open>x\<close> gives the sign \<^verbatim>\<open>-\<close> and is negated; \<open>n\<close> is the
  integer with \<open>n / 10\<^sup>f\<close> closest to \<open>x\<close>, the larger one of two; its digits are
  padded with zeros on the left to \<open>f + 1\<close> characters and the point is put before the
  last \<open>f\<close>. (From \<open>10\<^sup>2\<^sup>1\<close> on, JavaScript prints the number in exponent notation
  instead; no latitude or longitude is in that range, and that branch is not
  modelled.)
\<close>

definition toFixed :: "nat \<Rightarrow> rat \<Rightarrow> string" where
  "toFixed f x =
     (let s = (if x < 0 then ''-'' else '''');
          n = nat \<lfloor>\<bar>x\<bar> * 10 ^ f + 1 / 2\<rfloor>;
          m = showNat n;
          m' = (if f \<noteq> 0 \<and> length m \<le> f then replicate (f + 1 - length m) CHR ''0'' @ m else m);
          k = length m'
      in if f \<noteq> 0 then s @ take (k - f) m' @ ''.'' @ drop (k - f) m' else s @ m')"

text \<open>
  \<^verbatim>\<open>type HospitalRow\<close>. The six columns that are written to the store form the
  record \<open>payload\<close>; \<open>HospitalRow\<close> extends it by the optional \<^verbatim>\<open>id\<close>
  (a number or a string) and the optional \<^verbatim>\<open>emergency_available\<close>.
  An optional or nullable field is an \<open>option\<close>.
\<close>

datatype ident = IdNum rat | IdStr string

record payload =
  name :: string
  address :: "string option"
  latitude :: rat
  longitude :: rat
  phone :: "string option"
  specialities :: "string option"

record HospitalRow = payload +
  id' :: "ident option"
  emergency_available :: "bool option"

definition toKey :: "HospitalRow \<Rightarrow> string" where
  "toKey h = toFixed 6 (latitude h) @ ''|'' @ toFixed 6 (longitude h)"

subsection \<open>JavaScript Map with string keys\<close>

text \<open>
  A \<^verbatim>\<open>Map\<close> keeps its keys in the order of their first insertion;
  \<^verbatim>\<open>set\<close> on a key that is present replaces the value in place.
  \<^verbatim>\<open>Array.from(map.values())\<close> lists the values in that order.
\<close>

fun mapSet :: "'k \<Rightarrow> 'v \<Rightarrow> ('k \<times> 'v) list \<Rightarrow> ('k \<times> 'v) list" where
  "mapSet k v [] = [(k, v)]"
| "mapSet k v ((k', v') # m) = (if k' = k then (k, v) # m else (k', v') # mapSet k v m)"

definition mapValues :: "('k \<times> 'v) list \<Rightarrow> 'v list" where
  "mapValues m = map snd m"

subsection \<open>Deduplication (lines 163-167)\<close>

definition dedupe :: "HospitalRow list \<Rightarrow> HospitalRow list" where
  "dedupe mapped = mapValues (fold (\<lambda>h uniq. mapSet (toKey h) h uniq) mapped [])"

subsection \<open>Normalisation of the provider's elements (lines 140-161)\<close>

text \<open>
  An element of the provider's JSON answer: optional \<^verbatim>\<open>lat\<close> and \<^verbatim>\<open>lon\<close>,
  an optional \<^verbatim>\<open>center\<close> with the same two fields, and an optional tag object.
  A field that is missing or \<^verbatim>\<open>null\<close> is \<open>None\<close>. The provider's tag values
  are strings, so \<^verbatim>\<open>tags\<close> is a map from strings to strings; reading the property
  \<^verbatim>\<open>phone\<close> of the string \<^verbatim>\<open>tags.contact\<close> gives \<^verbatim>\<open>undefined\<close>, as does
  reading it when the tag is missing, so \<^verbatim>\<open>el.tags?.contact?.phone\<close> never
  contributes a value.
\<close>

record coord =
  lat :: "rat option"
  lon :: "rat option"

record element = coord +
  center :: "coord option"
  tags :: "(string \<rightharpoonup> string) option"

text \<open>\<^verbatim>\<open>a ?? b\<close> on optional numbers, and the falsy numbers (zero; JSON has no NaN).\<close>

definition nullish :: "rat option \<Rightarrow> rat option \<Rightarrow> rat option" where
  "nullish a b = (case a of Some v \<Rightarrow> Some v | None \<Rightarrow> b)"

definition truthyNum :: "rat option \<Rightarrow> bool" where
  "truthyNum v = (case v of None \<Rightarrow> False | Some x \<Rightarrow> x \<noteq> 0)"

text \<open>A string value is truthy when it is present and not empty; \<^verbatim>\<open>a || b\<close>.\<close>

definition truthy :: "string option \<Rightarrow> bool" where
  "truthy v = (case v of None \<Rightarrow> False | Some s \<Rightarrow> s \<noteq> [])"

definition orElse :: "string option \<Rightarrow> string option \<Rightarrow> string option" where
  "orElse a b = (if truthy a then a else b)"

definition tag :: "element \<Rightarrow> string \<Rightarrow> string option" where
  "tag el k = (case tags el of None \<Rightarrow> None | Some t \<Rightarrow> t k)"

text \<open>\<^verbatim>\<open>parts.join(sep)\<close>\<close>

fun join :: "string \<Rightarrow> string list \<Rightarrow> string" where
  "join sep [] = []"
| "join sep [x] = x"
| "join sep (x # y # ys) = x @ sep @ join sep (y # ys)"

definition mapElement :: "element \<Rightarrow> HospitalRow option" where
  "mapElement el =
     (let latVal = nullish (lat el) (case center el of None \<Rightarrow> None | Some c \<Rightarrow> lat c);
          lonVal = nullish (lon el) (case center el of None \<Rightarrow> None | Some c \<Rightarrow> lon c)
      in case (latVal, lonVal) of
           (Some la, Some lo) \<Rightarrow>
             if \<not> truthyNum latVal \<or> \<not> truthyNum lonVal then None
             else Some \<lparr>
               name = (case orElse (tag el ''name'') (Some ''Unnamed Hospital'') of
                         Some s \<Rightarrow> s | None \<Rightarrow> ''Unnamed Hospital''),
               address =
                 (let street = join '', '' (map (\<lambda>v. case v of Some s \<Rightarrow> s | None \<Rightarrow> [])
                        (filter truthy [tag el ''addr:street'', tag el ''addr:housenumber'',
                                        tag el ''addr:city'']))
                  in if truthy (tag el ''addr:full'') then tag el ''addr:full''
                     else if street \<noteq> [] then Some street
                     else if truthy (tag el ''description'') then tag el ''description''
                     else None),
               latitude = la,
               longitude = lo,
               phone = (if truthy (tag el ''phone'') then tag el ''phone'' else None),
               specialities =
                 (if truthy (tag el ''speciality'') then tag el ''speciality''
                  else if truthy (tag el ''healthcare'') then tag el ''healthcare''
                  else None),
               id' = None,
               emergency_available = Some (truthy (tag el ''emergency'')) \<rparr>
         | _ \<Rightarrow> None)"

text \<open>\<^verbatim>\<open>json.elements.map(...).filter(Boolean)\<close>\<close>

definition normalize :: "element list \<Rightarrow> HospitalRow list" where
  "normalize els = List.map_filter mapElement els"

subsection \<open>Component state and the store\<close>

text \<open>The \<^verbatim>\<open>useState\<close> cells of the component (the user's location apart).\<close>

record ui_state =
  loading :: bool
  syncing :: bool
  hospitals :: "HospitalRow list"
  error :: "string option"
  openNoteIdx :: "nat option"
  notesMap :: "string \<rightharpoonup> string"
  processingMap :: "string \<rightharpoonup> bool"
  message :: "string option"

text \<open>
  What a call of the store client resolves to, destructured by the code as
  \<^verbatim>\<open>{ data, error }\<close>: either an error with its message (and no data), or no error
  and the data, which is an array of rows or \<^verbatim>\<open>null\<close>.
\<close>

datatype 'a response = Failure string | Success "'a list option"

text \<open>
  The provider's answer to the one request of a run: a response that is not ok, with its
  status text, or the parsed body with its \<^verbatim>\<open>elements\<close> (absent: \<open>None\<close>).
\<close>

datatype overpass = NotOk string | Json "element list option"

subsection \<open>Chunked upsert and merge (lines 169-215)\<close>

definition chunkSize :: nat where
  "chunkSize = 200"

definition toPayload :: "HospitalRow \<Rightarrow> payload" where
  "toPayload h = \<lparr> name = name h, address = address h, latitude = latitude h,
                   longitude = longitude h, phone = phone h, specialities = specialities h \<rparr>"

text \<open>
  The record built from a returned row \<open>r\<close> (lines 198-207). A returned row has the
  columns of the table, so it is a \<open>HospitalRow\<close> too; \<^verbatim>\<open>Number(r.latitude)\<close> is
  the number the column holds, and \<^verbatim>\<open>r.emergency_available ?? false\<close> is the
  column's value, or \<^verbatim>\<open>false\<close> when the row has none.
\<close>

definition fromDb :: "HospitalRow \<Rightarrow> HospitalRow" where
  "fromDb r = \<lparr> name = name r, address = address r, latitude = latitude r,
                longitude = longitude r, phone = phone r, specialities = specialities r,
                id' = id' r,
                emergency_available =
                  Some (case emergency_available r of None \<Rightarrow> False | Some b \<Rightarrow> b) \<rparr>"

text \<open>The state update \<^verbatim>\<open>setHospitals((prev) => ...)\<close> of lines 192-210.\<close>

definition mergeRows :: "HospitalRow list \<Rightarrow> HospitalRow list \<Rightarrow> HospitalRow list" where
  "mergeRows prev data =
     mapValues (fold (\<lambda>r m. mapSet (toKey r) (fromDb r) m) data
                  (fold (\<lambda>p m. mapSet (toKey p) p m) prev []))"

text \<open>
  What one answer of the store does to the state (lines 186-211): an error is shown and
  the hospitals are left alone; rows are merged into the hospitals; an answer without an
  error and without an array of rows changes nothing.
\<close>

definition afterUpsert :: "ui_state \<Rightarrow> HospitalRow response \<Rightarrow> ui_state" where
  "afterUpsert st r =
     (case r of
        Failure m \<Rightarrow> st\<lparr>error := Some (''Supabase upsert error: '' @ m)\<rparr>
      | Success None \<Rightarrow> st
      | Success (Some data) \<Rightarrow> st\<lparr>hospitals := mergeRows (hospitals st) data\<rparr>)"

text \<open>
  The loop over the chunks. The store is a parameter: \<open>upsert k pl\<close> is what the
  \<open>k\<close>-th upsert of the run (counted from 0) resolves to when it is sent the payload
  \<open>pl\<close>. The payloads sent so far are recorded in \<open>sent\<close>.
\<close>

function upsertChunks ::
  "(nat \<Rightarrow> payload list \<Rightarrow> HospitalRow response) \<Rightarrow> HospitalRow list \<Rightarrow> nat \<Rightarrow>
   ui_state \<times> payload list list \<Rightarrow> ui_state \<times> payload list list" where
  "upsertChunks upsert uniqHospitals i (st, sent) =
     (if i < length uniqHospitals then
        (let chunk = take chunkSize (drop i uniqHospitals);
             pl = map toPayload chunk
         in upsertChunks upsert uniqHospitals (i + chunkSize)
              (afterUpsert st (upsert (length sent) pl), sent @ [pl]))
      else (st, sent))"
  by pat_completeness auto
termination
  by (relation "measure (\<lambda>(upsert, uniqHospitals, i, p). length uniqHospitals - i)")
     (auto simp: chunkSize_def)

declare upsertChunks.simps [simp del]

definition reconcile ::
  "(nat \<Rightarrow> payload list \<Rightarrow> HospitalRow response) \<Rightarrow> HospitalRow list \<Rightarrow> ui_state \<Rightarrow>
   ui_state \<times> payload list list" where
  "reconcile upsert uniqHospitals st =
     (case upsertChunks upsert uniqHospitals 0 (st, []) of
        (st', sent) \<Rightarrow>
          (st'\<lparr>hospitals := (if hospitals st' \<noteq> [] then hospitals st' else uniqHospitals)\<rparr>,
           sent))"

subsection \<open>syncHospitalsAround (lines 107-217)\<close>

text \<open>
  The result is the error thrown, if any, the state of the component afterwards, and the
  payloads sent to the store.
\<close>

definition syncHospitalsAround ::
  "overpass \<Rightarrow> (nat \<Rightarrow> payload list \<Rightarrow> HospitalRow response) \<Rightarrow> ui_state \<Rightarrow>
   string option \<times> ui_state \<times> payload list list" where
  "syncHospitalsAround res upsert st0 =
     (let st = st0\<lparr>syncing := True, error := None\<rparr>
      in case res of
           NotOk statusText \<Rightarrow>
             (Some (''Overpass API error: '' @ statusText), st\<lparr>syncing := False\<rparr>, [])
         | Json None \<Rightarrow> (None, st\<lparr>hospitals := [], syncing := False\<rparr>, [])
         | Json (Some []) \<Rightarrow> (None, st\<lparr>hospitals := [], syncing := False\<rparr>, [])
         | Json (Some elements) \<Rightarrow>
             (case reconcile upsert (dedupe (normalize elements)) st of
                (st', sent) \<Rightarrow> (None, st'\<lparr>syncing := False\<rparr>, sent)))"

subsection \<open>createAppointmentFor (lines 220-316)\<close>

text \<open>
  The signed-in user, of which only \<^verbatim>\<open>user.id\<close> is read (field \<open>uid\<close>), and
  what \<^verbatim>\<open>supabase.auth.getUser()\<close> resolves to: an error, or the data with the
  user or without one.
\<close>

record user =
  uid :: string

datatype auth_response = AuthError string | AuthData "user option"

text \<open>The row inserted into \<^verbatim>\<open>appointments\<close>.\<close>

record appointment =
  user_id :: ident
  hospital_id :: "ident option"
  assessment_id :: "ident option"
  notes' :: "string option"
  status :: string

text \<open>
  The store and the authentication service as the workflow meets them. Each request is
  made at most once in a run of the workflow, so its answer is given as a function of the
  request's arguments. The lookups select the column \<^verbatim>\<open>id\<close>, so their rows are
  identifiers; the insert of a hospital selects whole rows.
\<close>

record backend =
  select_hospital :: "rat \<Rightarrow> rat \<Rightarrow> ident response"
  insert_hospital :: "payload \<Rightarrow> HospitalRow response"
  getUser :: auth_response
  select_profile :: "string \<Rightarrow> ident response"
  select_assessment :: "string \<Rightarrow> ident response"
  insert_appointment :: "appointment \<Rightarrow> unit response"

text \<open>The requests a run makes, in order; the two inserts are the writes.\<close>

datatype call =
    SelectHospital rat rat
  | InsertHospital payload
  | GetUser
  | SelectProfile string
  | SelectAssessment string
  | InsertAppointment appointment

fun isWrite :: "call \<Rightarrow> bool" where
  "isWrite (InsertHospital p) = True"
| "isWrite (InsertAppointment a) = True"
| "isWrite c = False"

text \<open>Truthiness of an identifier that may be \<^verbatim>\<open>null\<close>: \<^verbatim>\<open>0\<close> and the empty string are falsy.\<close>

fun truthyId :: "ident option \<Rightarrow> bool" where
  "truthyId None = False"
| "truthyId (Some (IdNum n)) = (n \<noteq> 0)"
| "truthyId (Some (IdStr s)) = (s \<noteq> [])"

text \<open>\<^verbatim>\<open>rows && rows.length > 0 ? rows[0].id : null\<close>\<close>

definition firstId :: "ident response \<Rightarrow> ident option" where
  "firstId r = (case r of Success (Some (x # xs)) \<Rightarrow> Some x | _ \<Rightarrow> None)"

text \<open>
  A lookup that "fails or returns no row": an error, no data, or an empty array.
\<close>

definition noRows :: "'a response \<Rightarrow> bool" where
  "noRows r = (case r of Failure m \<Rightarrow> True | Success None \<Rightarrow> True | Success (Some rows) \<Rightarrow> rows = [])"

text \<open>
  Lines 259-300, after the hospital's identifier is settled: the result is the requests
  made, and the message of the error thrown or the appointment inserted.
\<close>

definition bookFor ::
  "backend \<Rightarrow> string option \<Rightarrow> call list \<Rightarrow> ident option \<Rightarrow> call list \<times> (string + appointment)" where
  "bookFor be note tr hid =
     (case getUser be of
        AuthError m \<Rightarrow> (tr @ [GetUser], Inl (''Auth fetch error: '' @ m))
      | AuthData None \<Rightarrow> (tr @ [GetUser], Inl ''User not authenticated'')
      | AuthData (Some u) \<Rightarrow>
          (let user_uuid = (case firstId (select_profile be (uid u)) of
                              Some p \<Rightarrow> p | None \<Rightarrow> IdStr (uid u));
               assessment = firstId (select_assessment be (uid u));
               appt = \<lparr> user_id = user_uuid, hospital_id = hid, assessment_id = assessment,
                        notes' = note, status = ''pending'' \<rparr>;
               tr' = tr @ [GetUser, SelectProfile (uid u), SelectAssessment (uid u),
                           InsertAppointment appt]
           in case insert_appointment be appt of
                Failure m \<Rightarrow> (tr', Inl (''Appointment insert error: '' @ m))
              | Success rows \<Rightarrow> (tr', Inr appt)))"

text \<open>
  Lines 226-257, the hospital's identifier: the requests made, and the message of the error
  thrown or the value of \<^verbatim>\<open>hospital_id\<close>, here \<open>hid\<close> (\<open>None\<close> for \<^verbatim>\<open>null\<close>
  and \<^verbatim>\<open>undefined\<close>). An error of the lookup is only written to the console
  (line 235).
\<close>

definition resolveHospital ::
  "backend \<Rightarrow> HospitalRow \<Rightarrow> call list \<times> (string + ident option)" where
  "resolveHospital be h =
     (let tr = [SelectHospital (latitude h) (longitude h)];
          hid = firstId (select_hospital be (latitude h) (longitude h))
      in if \<not> truthyId hid then
           (case insert_hospital be (toPayload h) of
              Failure m \<Rightarrow>
                (tr @ [InsertHospital (toPayload h)],
                 Inl (''Failed to create hospital record: '' @ m))
            | Success ins \<Rightarrow>
                (tr @ [InsertHospital (toPayload h)],
                 Inr (case ins of Some (r # rs) \<Rightarrow> id' r | _ \<Rightarrow> None)))
         else (tr, Inr hid))"

text \<open>Lines 226-300, the body of the \<^verbatim>\<open>try\<close> block.\<close>

definition tryBody ::
  "backend \<Rightarrow> HospitalRow \<Rightarrow> string option \<Rightarrow> call list \<times> (string + appointment)" where
  "tryBody be h note =
     (case resolveHospital be h of
        (tr, Inl m) \<Rightarrow> (tr, Inl m)
      | (tr, Inr hid) \<Rightarrow> bookFor be note tr hid)"

text \<open>
  The whole function, with \<^verbatim>\<open>catch\<close> and \<^verbatim>\<open>finally\<close>: the state of the
  component afterwards and the requests made. In the \<^verbatim>\<open>catch\<close> block
  \<^verbatim>\<open>e?.message || String(e)\<close> is the message, or \<^verbatim>\<open>Error\<close> when it is empty.
\<close>

definition createAppointmentFor ::
  "backend \<Rightarrow> HospitalRow \<Rightarrow> ui_state \<Rightarrow> ui_state \<times> call list" where
  "createAppointmentFor be h st0 =
     (let key = toKey h;
          st = st0\<lparr>processingMap := (processingMap st0)(key \<mapsto> True), message := None\<rparr>
      in case tryBody be h (notesMap st0 key) of (tr, r) \<Rightarrow>
           (let st' = (case r of
                         Inr appt \<Rightarrow>
                           st\<lparr>message := Some ''Appointment created (status: pending).'',
                              openNoteIdx := None,
                              notesMap := (notesMap st)(key := None)\<rparr>
                       | Inl m \<Rightarrow>
                           st\<lparr>message := Some (''Error creating appointment: ''
                                     @ (if m \<noteq> [] then m else ''Error''))\<rparr>)
            in (st'\<lparr>processingMap := (processingMap st')(key \<mapsto> False)\<rparr>, tr)))"

subsection \<open>Reading a key back\<close>

text \<open>
  The value of a string of decimal digits, and the sign and the digits of a string that
  \<open>toFixed\<close> has produced. \<open>rounded f x\<close> is what \<open>toFixed f x\<close> prints: whether
  \<open>x\<close> is negative, and the integer nearest to \<open>\<bar>x\<bar> \<cdot> 10\<^sup>f\<close>, the larger one of two.
\<close>

definition digitVal :: "char \<Rightarrow> nat" where
  "digitVal c = of_char c - 48"

definition readNat :: "string \<Rightarrow> nat" where
  "readNat s = foldl (\<lambda>a c. 10 * a + digitVal c) 0 s"

definition readFixed :: "string \<Rightarrow> bool \<times> nat" where
  "readFixed s = (s \<noteq> [] \<and> hd s = CHR ''-'',
                  readNat (filter (\<lambda>c. c \<noteq> CHR ''.'' \<and> c \<noteq> CHR ''-'') s))"

definition signOf :: "rat \<Rightarrow> string" where
  "signOf x = (if x < 0 then ''-'' else [])"

definition rounded :: "nat \<Rightarrow> rat \<Rightarrow> bool \<times> nat" where
  "rounded f x = (x < 0, nat \<lfloor>\<bar>x\<bar> * 10 ^ f + 1 / 2\<rfloor>)"

text \<open>
  Two numbers "differ only beyond the 6th decimal place" when their decimal digits agree up
  to the 6th decimal: cut off after the 6th decimal (towards zero) they are the same
  number of millionths, \<open>trunc6\<close>. So 0.0000001 and -0.0000001, both cut off to zero,
  differ only beyond the 6th decimal place. \<open>roundsUp6 x\<close> says that what follows the
  6th decimal of \<open>x\<close> is at least half a millionth.
\<close>

definition trunc6 :: "rat \<Rightarrow> int" where
  "trunc6 x = (if x < 0 then - \<lfloor>- x * 10 ^ 6\<rfloor> else \<lfloor>x * 10 ^ 6\<rfloor>)"

definition sameTo6 :: "rat \<Rightarrow> rat \<Rightarrow> bool" where
  "sameTo6 x y = (trunc6 x = trunc6 y)"

definition roundsUp6 :: "rat \<Rightarrow> bool" where
  "roundsUp6 x = (1 / 2 \<le> frac (\<bar>x\<bar> * 10 ^ 6))"

section \<open>Example inputs\<close>

text \<open>
  Three hospitals. \<open>hospA\<close> lies at (40, -73). \<open>hospB\<close> lies at the numbers that
  the JSON literals \<^verbatim>\<open>40.000001\<close> and \<^verbatim>\<open>-73.000001\<close> denote, which are the
  binary fractions nearest to them. \<open>hospA2\<close> lies \<open>2\<^sup>-\<^sup>2\<^sup>2\<close> (less than
  0.00000024) north of \<open>hospA\<close>, and \<open>hospA3\<close> lies \<open>3 \<cdot> 2\<^sup>-\<^sup>2\<^sup>2\<close> (less than
  0.00000072) north of it.
\<close>

definition hospA :: HospitalRow where
  "hospA = \<lparr> name = ''A'', address = None, latitude = 40, longitude = - 73, phone = None,
             specialities = None, id' = None, emergency_available = Some False \<rparr>"

definition hospB :: HospitalRow where
  "hospB = \<lparr> name = ''B'', address = None,
             latitude = 351843729684413 / 8796093022208,
             longitude = - 642114799417277 / 8796093022208, phone = None,
             specialities = None, id' = None, emergency_available = Some False \<rparr>"

definition hospA2 :: HospitalRow where
  "hospA2 = \<lparr> name = ''A2'', address = None, latitude = 167772161 / 4194304, longitude = - 73,
              phone = None, specialities = None, id' = None,
              emergency_available = Some True \<rparr>"

definition hospA3 :: HospitalRow where
  "hospA3 = \<lparr> name = ''A3'', address = None, latitude = 167772163 / 4194304, longitude = - 73,
              phone = None, specialities = None, id' = None,
              emergency_available = Some False \<rparr>"

text \<open>The state of the component when it is mounted.\<close>

definition initialState :: ui_state where
  "initialState = \<lparr> loading = True, syncing = False, hospitals = [], error = None,
                      openNoteIdx = None, notesMap = Map.empty, processingMap = Map.empty,
                      message = None \<rparr>"

text \<open>
  A store that knows the hospital under the identifier 7, a signed-in user \<open>u1\<close> whose
  profile lookup fails and who has no assessment, and an insert of the appointment that
  succeeds; and variants of it.
\<close>

definition beOk :: backend where
  "beOk = \<lparr> select_hospital = (\<lambda>la lo. Success (Some [IdNum 7])),
            insert_hospital = (\<lambda>p. Success (Some [\<lparr> name = name p, address = address p,
              latitude = latitude p, longitude = longitude p, phone = phone p,
              specialities = specialities p, id' = Some (IdNum 8),
              emergency_available = None \<rparr>])),
            getUser = AuthData (Some \<lparr> uid = ''u1'' \<rparr>),
            select_profile = (\<lambda>u. Failure ''permission denied''),
            select_assessment = (\<lambda>u. Success (Some [])),
            insert_appointment = (\<lambda>a. Success (Some [()])) \<rparr>"

definition beLookupFails :: backend where
  "beLookupFails = beOk \<lparr> select_hospital := (\<lambda>la lo. Failure ''timeout'') \<rparr>"

definition beUnknown :: backend where
  "beUnknown = beOk \<lparr> select_hospital := (\<lambda>la lo. Success (Some [])) \<rparr>"

definition beAnonymous :: backend where
  "beAnonymous = beUnknown \<lparr> getUser := AuthData None \<rparr>"

definition beInsertFails :: backend where
  "beInsertFails = beUnknown \<lparr> insert_hospital := (\<lambda>p. Failure ''row violates policy'') \<rparr>"

definition beAuthError :: backend where
  "beAuthError = beOk \<lparr> getUser := AuthError ''token expired'' \<rparr>"

definition beBookingFails :: backend where
  "beBookingFails = beOk \<lparr> insert_appointment := (\<lambda>a. Failure ''insert denied'') \<rparr>"

text \<open>
  Two hospitals at the latitude 40 on either side of the prime meridian, at the
  longitudes that the JSON literals \<^verbatim>\<open>1e-7\<close> and \<^verbatim>\<open>-1e-7\<close> denote.
\<close>

definition hospE :: HospitalRow where
  "hospE = \<lparr> name = ''E'', address = None, latitude = 40,
             longitude = 944473296573929 / 9444732965739290427392, phone = None,
             specialities = None, id' = None, emergency_available = Some False \<rparr>"

definition hospW :: HospitalRow where
  "hospW = \<lparr> name = ''W'', address = None, latitude = 40,
             longitude = - 944473296573929 / 9444732965739290427392, phone = None,
             specialities = None, id' = None, emergency_available = Some False \<rparr>"

text \<open>
  The two elements of the provider's answer in the end-to-end example: a node at
  (40.0, -73.0) named A, and a way or relation with the centre (40.000001, -73.000001)
  named B.
\<close>

definition elA :: element where
  "elA = \<lparr> lat = Some 40, lon = Some (- 73), center = None,
           tags = Some (Map.empty(''name'' \<mapsto> ''A'')) \<rparr>"

definition elB :: element where
  "elB = \<lparr> lat = None, lon = None,
           center = Some \<lparr> lat = Some (351843729684413 / 8796093022208),
                           lon = Some (- 642114799417277 / 8796093022208) \<rparr>,
           tags = Some (Map.empty(''name'' \<mapsto> ''B'')) \<rparr>"

text \<open>
  Stores. \<open>stored p\<close> is the row the store returns for a payload row: the six columns
  and an identifier (here made from the latitude, which tells the rows of these examples
  apart); the table has no column for the emergency flag. \<open>echoStore\<close> writes every
  chunk, \<open>failAll\<close> fails for every chunk, and \<open>failSecond\<close> fails for the second
  chunk of a run only.
\<close>

definition stored :: "payload \<Rightarrow> HospitalRow" where
  "stored p = \<lparr> name = name p, address = address p, latitude = latitude p,
                longitude = longitude p, phone = phone p, specialities = specialities p,
                id' = Some (IdNum (latitude p)), emergency_available = None \<rparr>"

definition echoStore :: "nat \<Rightarrow> payload list \<Rightarrow> HospitalRow response" where
  "echoStore k pl = Success (Some (map stored pl))"

definition failAll :: "nat \<Rightarrow> payload list \<Rightarrow> HospitalRow response" where
  "failAll k pl = Failure ''service unavailable''"

definition failSecond :: "nat \<Rightarrow> payload list \<Rightarrow> HospitalRow response" where
  "failSecond k pl = (if k = 1 then Failure ''gateway timeout'' else Success (Some (map stored pl)))"

text \<open>
  401 hospitals with different keys, at the latitudes 0.001, 0.002, ..., 0.401 and the
  longitude 10: three chunks of 200, 200 and 1.
\<close>

definition mkRow :: "nat \<Rightarrow> HospitalRow" where
  "mkRow i = \<lparr> name = ''Unnamed Hospital'', address = None, latitude = of_nat i / 1000,
               longitude = 10, phone = None, specialities = None, id' = None,
               emergency_available = Some True \<rparr>"

definition rows401 :: "HospitalRow list" where
  "rows401 = map mkRow [1..<402]"

section \<open>Properties\<close>

subsection \<open>Evaluating toFixed and toKey\<close>

lemma floor_rat_divide_numeral:
  "\<lfloor>numeral a / numeral b :: rat\<rfloor> = numeral a div numeral b"
  by (metis floor_divide_of_int_eq of_int_numeral)

lemma floor_rat_one_divide_numeral: "\<lfloor>1 / numeral b :: rat\<rfloor> = 1 div numeral b"
  by (metis floor_divide_of_int_eq of_int_numeral of_int_1)

lemma showNat_digit: "n < 10 \<Longrightarrow> showNat n = [''0123456789'' ! n]"
  by (simp add: showNat.simps)

lemma showNat_more:
  "\<not> n < 10 \<Longrightarrow> showNat n = showNat (n div 10) @ [''0123456789'' ! (n mod 10)]"
  by (subst showNat.simps) simp

lemma replicate_numeral_unfold:
  "replicate (numeral k) x = x # replicate (pred_numeral k) x"
  by (simp add: numeral_eq_Suc)

lemmas toFixed_eval =
  toFixed_def Let_def showNat_digit showNat_more floor_rat_divide_numeral
  floor_rat_one_divide_numeral replicate_numeral_unfold

lemma toKey_hospA: "toKey hospA = ''40.000000|-73.000000''"
  by (simp add: toKey_def hospA_def toFixed_eval)

lemma toKey_hospB: "toKey hospB = ''40.000001|-73.000001''"
  by (simp add: toKey_def hospB_def toFixed_eval)

lemma toKey_hospA2: "toKey hospA2 = ''40.000000|-73.000000''"
  by (simp add: toKey_def hospA2_def toFixed_eval)

lemma toKey_hospA3: "toKey hospA3 = ''40.000001|-73.000000''"
  by (simp add: toKey_def hospA3_def toFixed_eval)

lemmas toKey_examples = toKey_hospA toKey_hospB toKey_hospA2 toKey_hospA3

subsection \<open>Keys are equal exactly when the coordinates round alike\<close>

lemma digit_cases: "n < 10 \<Longrightarrow> n \<in> {0, 1, 2, 3, 4, 5, 6, 7, 8, 9 :: nat}"
  by auto

lemma digit_in: "n < 10 \<Longrightarrow> ''0123456789'' ! n \<in> set ''0123456789''"
  by (rule nth_mem) simp

lemma digitVal_digit: "n < 10 \<Longrightarrow> digitVal (''0123456789'' ! n) = n"
  by (drule digit_cases) (auto simp: digitVal_def)

lemma showNat_chars: "set (showNat n) \<subseteq> set ''0123456789''"
proof (induction n rule: showNat.induct)
  case (1 n)
  show ?case
  proof (cases "n < 10")
    case True
    then show ?thesis using digit_in [of n] by (simp add: showNat_digit)
  next
    case False
    then show ?thesis using "1" digit_in [of "n mod 10"] by (simp add: showNat_more)
  qed
qed

lemma showNat_nonempty: "showNat n \<noteq> []"
  by (cases "n < 10") (simp_all add: showNat_digit showNat_more)

lemma readNat_snoc: "readNat (s @ [c]) = 10 * readNat s + digitVal c"
  by (simp add: readNat_def)

lemma readNat_showNat: "readNat (showNat n) = n"
proof (induction n rule: showNat.induct)
  case (1 n)
  show ?case
  proof (cases "n < 10")
    case True
    then show ?thesis by (simp add: showNat_digit readNat_def digitVal_digit)
  next
    case False
    then show ?thesis using "1" by (simp add: showNat_more readNat_snoc digitVal_digit)
  qed
qed

lemma readNat_zeros: "readNat (replicate z CHR ''0'' @ s) = readNat s"
proof -
  have "foldl (\<lambda>a c. 10 * a + digitVal c) 0 (replicate z CHR ''0'') = 0"
    by (induction z) (simp_all add: digitVal_def)
  then show ?thesis by (simp add: readNat_def)
qed

lemma digits_plain:
  assumes "set m \<subseteq> set ''0123456789''"
  shows "filter (\<lambda>c. c \<noteq> CHR ''.'' \<and> c \<noteq> CHR ''-'') m = m"
    and "m \<noteq> [] \<Longrightarrow> hd m \<noteq> CHR ''-''"
    and "CHR ''|'' \<notin> set m"
proof -
  have ok: "c \<noteq> CHR ''.'' \<and> c \<noteq> CHR ''-'' \<and> c \<noteq> CHR ''|''" if "c \<in> set m" for c
    using that assms by auto
  then show "filter (\<lambda>c. c \<noteq> CHR ''.'' \<and> c \<noteq> CHR ''-'') m = m"
    by (simp add: filter_id_conv)
  show "hd m \<noteq> CHR ''-''" if "m \<noteq> []"
    using ok [of "hd m"] that by simp
  show "CHR ''|'' \<notin> set m"
    using ok by blast
qed

lemma toFixed_shape:
  assumes "f \<noteq> 0"
  obtains m' where "set m' \<subseteq> set ''0123456789''" and "f < length m'"
    and "readNat m' = nat \<lfloor>\<bar>x\<bar> * 10 ^ f + 1 / 2\<rfloor>"
    and "toFixed f x = signOf x @ take (length m' - f) m' @ ''.'' @ drop (length m' - f) m'"
proof -
  define n where "n = nat \<lfloor>\<bar>x\<bar> * 10 ^ f + 1 / 2\<rfloor>"
  define m where "m = showNat n"
  define m' where "m' = (if length m \<le> f then replicate (f + 1 - length m) CHR ''0'' @ m else m)"
  have 1: "set m' \<subseteq> set ''0123456789''"
    using showNat_chars [of n] by (auto simp: m'_def m_def)
  have 2: "f < length m'"
    by (auto simp: m'_def)
  have 3: "readNat m' = nat \<lfloor>\<bar>x\<bar> * 10 ^ f + 1 / 2\<rfloor>"
    by (simp add: m'_def m_def readNat_zeros readNat_showNat n_def)
  have 4: "toFixed f x = signOf x @ take (length m' - f) m' @ ''.'' @ drop (length m' - f) m'"
    using assms by (simp add: toFixed_def Let_def m'_def m_def n_def signOf_def)
  from 1 2 3 4 show thesis by (rule that)
qed

lemma readFixed_toFixed:
  assumes "f \<noteq> 0"
  shows "readFixed (toFixed f x) = rounded f x"
proof -
  from assms obtain m' where d: "set m' \<subseteq> set ''0123456789''" and l: "f < length m'"
    and r: "readNat m' = nat \<lfloor>\<bar>x\<bar> * 10 ^ f + 1 / 2\<rfloor>"
    and t: "toFixed f x = signOf x @ take (length m' - f) m' @ ''.'' @ drop (length m' - f) m'"
    by (rule toFixed_shape)
  let ?a = "take (length m' - f) m'" and ?b = "drop (length m' - f) m'"
  have da: "set ?a \<subseteq> set ''0123456789''" and db: "set ?b \<subseteq> set ''0123456789''"
    using d set_take_subset [of "length m' - f" m'] set_drop_subset [of "length m' - f" m']
    by blast+
  have a: "?a \<noteq> []" using l by (cases m') auto
  have "filter (\<lambda>c. c \<noteq> CHR ''.'' \<and> c \<noteq> CHR ''-'') (toFixed f x) = ?a @ ?b"
    unfolding t using digits_plain(1) [OF da] digits_plain(1) [OF db] by (simp add: signOf_def)
  then have num: "readNat (filter (\<lambda>c. c \<noteq> CHR ''.'' \<and> c \<noteq> CHR ''-'') (toFixed f x))
      = nat \<lfloor>\<bar>x\<bar> * 10 ^ f + 1 / 2\<rfloor>"
    using r by simp
  have sign: "(toFixed f x \<noteq> [] \<and> hd (toFixed f x) = CHR ''-'') = (x < 0)"
    unfolding t using digits_plain(2) [OF da a] a by (simp add: signOf_def)
  show ?thesis
    unfolding readFixed_def rounded_def using num sign by simp
qed

lemma toFixed_rounded: "rounded f x = rounded f y \<Longrightarrow> toFixed f x = toFixed f y"
  by (simp add: rounded_def toFixed_def)

lemma toFixed_eq_iff: "f \<noteq> 0 \<Longrightarrow> toFixed f x = toFixed f y \<longleftrightarrow> rounded f x = rounded f y"
  using readFixed_toFixed [of f x] readFixed_toFixed [of f y] toFixed_rounded [of f x y]
  by auto

lemma toFixed_no_bar: "f \<noteq> 0 \<Longrightarrow> CHR ''|'' \<notin> set (toFixed f x)"
proof -
  assume "f \<noteq> 0"
  then obtain m' where d: "set m' \<subseteq> set ''0123456789''"
    and t: "toFixed f x = signOf x @ take (length m' - f) m' @ ''.'' @ drop (length m' - f) m'"
    by (rule toFixed_shape)
  have "set (take (length m' - f) m') \<subseteq> set ''0123456789''"
    and "set (drop (length m' - f) m') \<subseteq> set ''0123456789''"
    using d set_take_subset [of "length m' - f" m'] set_drop_subset [of "length m' - f" m']
    by blast+
  then show ?thesis
    unfolding t using digits_plain(3) by (auto simp: signOf_def)
qed

lemma takeWhile_until: "c \<notin> set a \<Longrightarrow> takeWhile (\<lambda>x. x \<noteq> c) (a @ c # b) = a"
  by (induction a) auto

lemma split_at_bar:
  assumes "a @ c # b = a' @ c # b'" and "c \<notin> set a" and "c \<notin> set a'"
  shows "a = a' \<and> b = b'"
proof -
  have "takeWhile (\<lambda>x. x \<noteq> c) (a @ c # b) = a" "takeWhile (\<lambda>x. x \<noteq> c) (a' @ c # b') = a'"
    using assms(2,3) by (simp_all add: takeWhile_until)
  with assms(1) have "a = a'" by simp
  with assms(1) show ?thesis by simp
qed

lemma toKey_bar: "toKey h = toFixed 6 (latitude h) @ CHR ''|'' # toFixed 6 (longitude h)"
  unfolding toKey_def by simp

lemma toKey_eq_iff:
  "toKey h1 = toKey h2 \<longleftrightarrow>
     rounded 6 (latitude h1) = rounded 6 (latitude h2) \<and>
     rounded 6 (longitude h1) = rounded 6 (longitude h2)"
proof
  have nz: "(6::nat) \<noteq> 0" by simp
  assume "toKey h1 = toKey h2"
  then have "toFixed 6 (latitude h1) @ CHR ''|'' # toFixed 6 (longitude h1) =
             toFixed 6 (latitude h2) @ CHR ''|'' # toFixed 6 (longitude h2)"
    by (simp only: toKey_bar)
  then have "toFixed 6 (latitude h1) = toFixed 6 (latitude h2) \<and>
             toFixed 6 (longitude h1) = toFixed 6 (longitude h2)"
    by (rule split_at_bar) (rule toFixed_no_bar [OF nz])+
  then show "rounded 6 (latitude h1) = rounded 6 (latitude h2) \<and>
     rounded 6 (longitude h1) = rounded 6 (longitude h2)"
    by (simp only: toFixed_eq_iff [OF nz])
next
  assume "rounded 6 (latitude h1) = rounded 6 (latitude h2) \<and>
     rounded 6 (longitude h1) = rounded 6 (longitude h2)"
  then have "toFixed 6 (latitude h1) = toFixed 6 (latitude h2)"
    and "toFixed 6 (longitude h1) = toFixed 6 (longitude h2)"
    by (blast intro: toFixed_rounded)+
  then show "toKey h1 = toKey h2"
    by (simp only: toKey_def)
qed

lemma floor_add_half: "\<lfloor>a + 1 / 2 :: rat\<rfloor> = \<lfloor>a\<rfloor> + (if 1 / 2 \<le> frac a then 1 else 0)"
proof -
  have "frac (1 / 2 :: rat) = 1 / 2" by (simp add: frac_def floor_rat_one_divide_numeral)
  moreover have "\<lfloor>1 / 2 :: rat\<rfloor> = 0" by (simp add: floor_rat_one_divide_numeral)
  ultimately show ?thesis by (simp add: floor_add)
qed

lemma abs_trunc6: "\<bar>trunc6 x\<bar> = \<lfloor>\<bar>x\<bar> * 10 ^ 6\<rfloor>"
proof (cases "x < 0")
  case True
  then have "0 \<le> - x * 10 ^ 6" by simp
  then have "0 \<le> \<lfloor>- x * 10 ^ 6\<rfloor>" by simp
  with True show ?thesis by (simp add: trunc6_def)
next
  case False
  then have "0 \<le> x * 10 ^ 6" by simp
  then have "0 \<le> \<lfloor>x * 10 ^ 6\<rfloor>" by simp
  with False show ?thesis by (simp add: trunc6_def)
qed

lemma rounded_eq_iff:
  assumes "sameTo6 x y"
  shows "rounded 6 x = rounded 6 y \<longleftrightarrow> (x < 0) = (y < 0) \<and> roundsUp6 x = roundsUp6 y"
proof -
  define a b where "a = \<bar>x\<bar> * 10 ^ 6" and "b = \<bar>y\<bar> * 10 ^ 6"
  have "\<bar>trunc6 x\<bar> = \<bar>trunc6 y\<bar>"
    using assms by (simp add: sameTo6_def)
  then have fl: "\<lfloor>a\<rfloor> = \<lfloor>b\<rfloor>"
    by (simp only: abs_trunc6 a_def b_def)
  have nn: "0 \<le> a" "0 \<le> b"
    by (simp_all add: a_def b_def)
  then have nn': "0 \<le> \<lfloor>a + 1 / 2\<rfloor>" "0 \<le> \<lfloor>b + 1 / 2\<rfloor>"
    by simp_all
  have "rounded 6 x = rounded 6 y \<longleftrightarrow>
      (x < 0) = (y < 0) \<and> nat \<lfloor>a + 1 / 2\<rfloor> = nat \<lfloor>b + 1 / 2\<rfloor>"
    unfolding rounded_def a_def b_def by blast
  also have "nat \<lfloor>a + 1 / 2\<rfloor> = nat \<lfloor>b + 1 / 2\<rfloor> \<longleftrightarrow> \<lfloor>a + 1 / 2\<rfloor> = \<lfloor>b + 1 / 2\<rfloor>"
    using nn' by (rule eq_nat_nat_iff)
  also have "\<lfloor>a + 1 / 2\<rfloor> = \<lfloor>b + 1 / 2\<rfloor> \<longleftrightarrow> (1 / 2 \<le> frac a) = (1 / 2 \<le> frac b)"
    by (simp add: floor_add_half fl)
  finally show ?thesis
    by (simp only: roundsUp6_def a_def b_def)
qed

lemma dedupe_pair:
  "dedupe [h1, h2] = (if toKey h1 = toKey h2 then [h2] else [h1, h2])"
  by (simp add: dedupe_def mapValues_def)

text \<open>
  C3, as amended. The key is made by rounding, not by cutting off, and it carries a minus
  sign for every negative number: two hospitals whose latitudes and whose longitudes
  differ only beyond the 6th decimal place have equal keys exactly when, in both
  coordinates, what follows the 6th decimal is on the same side of half a millionth in
  the one as in the other, and the one is negative if and only if the other is. Then
  deduplication keeps only the later of the two; otherwise it keeps both.
\<close>

theorem toKey_tolerance:
  assumes "sameTo6 (latitude h1) (latitude h2)" and "sameTo6 (longitude h1) (longitude h2)"
  shows "(toKey h1 = toKey h2 \<longleftrightarrow>
            (roundsUp6 (latitude h1) = roundsUp6 (latitude h2) \<and>
             (latitude h1 < 0) = (latitude h2 < 0)) \<and>
            (roundsUp6 (longitude h1) = roundsUp6 (longitude h2) \<and>
             (longitude h1 < 0) = (longitude h2 < 0))) \<and>
         (toKey h1 = toKey h2 \<longrightarrow> dedupe [h1, h2] = [h2]) \<and>
         (toKey h1 \<noteq> toKey h2 \<longrightarrow> dedupe [h1, h2] = [h1, h2])"
proof -
  have "toKey h1 = toKey h2 \<longleftrightarrow>
            (roundsUp6 (latitude h1) = roundsUp6 (latitude h2) \<and>
             (latitude h1 < 0) = (latitude h2 < 0)) \<and>
            (roundsUp6 (longitude h1) = roundsUp6 (longitude h2) \<and>
             (longitude h1 < 0) = (longitude h2 < 0))"
    unfolding toKey_eq_iff rounded_eq_iff [OF assms(1)] rounded_eq_iff [OF assms(2)] by blast
  then show ?thesis
    by (simp add: dedupe_pair)
qed

lemma sameTo6_examples:
  "sameTo6 (latitude hospA) (latitude hospA2)" "sameTo6 (longitude hospA) (longitude hospA2)"
  "sameTo6 (latitude hospA2) (latitude hospA3)" "sameTo6 (longitude hospA2) (longitude hospA3)"
  "sameTo6 (latitude hospE) (latitude hospW)" "sameTo6 (longitude hospE) (longitude hospW)"
  by (simp_all add: sameTo6_def trunc6_def hospA_def hospA2_def hospA3_def hospE_def hospW_def
      floor_rat_divide_numeral)

lemma roundsUp6_examples:
  "\<not> roundsUp6 (latitude hospA)" "\<not> roundsUp6 (latitude hospA2)" "roundsUp6 (latitude hospA3)"
  "\<not> roundsUp6 (longitude hospA)" "\<not> roundsUp6 (longitude hospA2)"
  "\<not> roundsUp6 (latitude hospE)" "\<not> roundsUp6 (latitude hospW)"
  "\<not> roundsUp6 (longitude hospE)" "\<not> roundsUp6 (longitude hospW)"
  by (simp_all add: roundsUp6_def frac_def hospA_def hospA2_def hospA3_def hospE_def hospW_def
      floor_rat_divide_numeral)

lemma toKey_hospE: "toKey hospE = ''40.000000|0.000000''"
  by (simp add: toKey_def hospE_def toFixed_eval)

lemma toKey_hospW: "toKey hospW = ''40.000000|-0.000000''"
  by (simp add: toKey_def hospW_def toFixed_eval)

theorem toKey_tolerance_witness:
  "(sameTo6 (latitude hospA) (latitude hospA2) \<and> sameTo6 (longitude hospA) (longitude hospA2) \<and>
    roundsUp6 (latitude hospA) = roundsUp6 (latitude hospA2) \<and>
    roundsUp6 (longitude hospA) = roundsUp6 (longitude hospA2) \<and>
    toKey hospA = toKey hospA2 \<and> dedupe [hospA, hospA2] = [hospA2]) \<and>
   (sameTo6 (latitude hospE) (latitude hospW) \<and> sameTo6 (longitude hospE) (longitude hospW) \<and>
    roundsUp6 (latitude hospE) = roundsUp6 (latitude hospW) \<and>
    roundsUp6 (longitude hospE) = roundsUp6 (longitude hospW) \<and>
    \<not> longitude hospE < 0 \<and> longitude hospW < 0 \<and>
    toKey hospE = ''40.000000|0.000000'' \<and> toKey hospW = ''40.000000|-0.000000'' \<and>
    toKey hospE \<noteq> toKey hospW \<and> dedupe [hospE, hospW] = [hospE, hospW])"
proof -
  have signs: "(latitude hospA < 0) = (latitude hospA2 < 0)"
    "(longitude hospA < 0) = (longitude hospA2 < 0)"
    "\<not> longitude hospE < 0" "longitude hospW < 0"
    by (simp_all add: hospA_def hospA2_def hospE_def hospW_def)
  from toKey_tolerance [OF sameTo6_examples(1,2)] roundsUp6_examples signs
  have "toKey hospA = toKey hospA2 \<and> dedupe [hospA, hospA2] = [hospA2]"
    by blast
  moreover from toKey_tolerance [OF sameTo6_examples(5,6)] signs
  have "toKey hospE \<noteq> toKey hospW \<and> dedupe [hospE, hospW] = [hospE, hospW]"
    by blast
  ultimately show ?thesis
    using sameTo6_examples roundsUp6_examples signs toKey_hospE toKey_hospW by blast
qed

text \<open>
  C3 as stated fails: \<open>hospA2\<close> and \<open>hospA3\<close> lie at latitudes 40.000000238... and
  40.000000715..., which differ only from the 7th decimal on, and at the same longitude;
  their keys differ and deduplication keeps both.
\<close>

theorem close_pair_counterexample:
  "sameTo6 (latitude hospA2) (latitude hospA3) \<and> sameTo6 (longitude hospA2) (longitude hospA3) \<and>
   toKey hospA2 \<noteq> toKey hospA3 \<and> dedupe [hospA2, hospA3] = [hospA2, hospA3]"
  using sameTo6_examples(3,4) by (simp add: dedupe_pair toKey_examples)

subsection \<open>The Map operations\<close>

lemma map_of_mapSet: "map_of (mapSet k v m) = (map_of m)(k \<mapsto> v)"
  by (induction m) (auto simp: fun_eq_iff)

lemma keys_mapSet: "fst ` set (mapSet k v m) = insert k (fst ` set m)"
  by (simp add: dom_map_of_conv_image_fst [symmetric] map_of_mapSet)

lemma distinct_mapSet: "distinct (map fst m) \<Longrightarrow> distinct (map fst (mapSet k v m))"
  by (induction m) (auto simp: keys_mapSet)

lemma fold_mapSet_snoc:
  "fold (\<lambda>x. mapSet (kf x) (vf x)) (xs @ [x]) m = mapSet (kf x) (vf x) (fold (\<lambda>x. mapSet (kf x) (vf x)) xs m)"
  by simp

lemma keys_fold_mapSet:
  "fst ` set (fold (\<lambda>x. mapSet (kf x) (vf x)) xs m) = fst ` set m \<union> kf ` set xs"
  by (induction xs arbitrary: m) (auto simp: keys_mapSet)

lemma distinct_fold_mapSet:
  "distinct (map fst m) \<Longrightarrow> distinct (map fst (fold (\<lambda>x. mapSet (kf x) (vf x)) xs m))"
  by (induction xs arbitrary: m) (auto simp: distinct_mapSet)

lemma map_of_fold_mapSet:
  "map_of (fold (\<lambda>x. mapSet (kf x) (vf x)) xs m) k =
     (if k \<in> kf ` set xs then Some (vf (last (filter (\<lambda>x. kf x = k) xs))) else map_of m k)"
proof (induction xs rule: rev_induct)
  case Nil
  then show ?case by simp
next
  case (snoc x xs)
  show ?case
    by (simp add: map_of_mapSet snoc.IH)
qed

lemma in_mapValues_iff:
  assumes "distinct (map fst m)"
  shows "v \<in> set (mapValues m) \<longleftrightarrow> (\<exists>k. map_of m k = Some v)"
proof
  assume "v \<in> set (mapValues m)"
  then obtain k where "(k, v) \<in> set m" by (auto simp: mapValues_def)
  with assms have "map_of m k = Some v" by simp
  then show "\<exists>k. map_of m k = Some v" ..
next
  assume "\<exists>k. map_of m k = Some v"
  then obtain k where "map_of m k = Some v" ..
  then have "(k, v) \<in> set m" by (rule map_of_SomeD)
  then show "v \<in> set (mapValues m)" by (force simp: mapValues_def)
qed

lemma in_values_fold_mapSet:
  assumes "distinct (map fst m)"
  shows "v \<in> set (mapValues (fold (\<lambda>x. mapSet (kf x) (vf x)) xs m)) \<longleftrightarrow>
           (\<exists>x \<in> set xs. v = vf (last (filter (\<lambda>y. kf y = kf x) xs))) \<or>
           (\<exists>k. map_of m k = Some v \<and> k \<notin> kf ` set xs)"
proof -
  let ?M = "fold (\<lambda>x. mapSet (kf x) (vf x)) xs m"
  have d: "distinct (map fst ?M)" using assms by (rule distinct_fold_mapSet)
  have "v \<in> set (mapValues ?M) \<longleftrightarrow> (\<exists>k. map_of ?M k = Some v)"
    using d by (rule in_mapValues_iff)
  also have "\<dots> \<longleftrightarrow> (\<exists>k. (if k \<in> kf ` set xs then Some (vf (last (filter (\<lambda>x. kf x = k) xs))) else map_of m k) = Some v)"
    by (simp only: map_of_fold_mapSet)
  also have "\<dots> \<longleftrightarrow> (\<exists>x \<in> set xs. v = vf (last (filter (\<lambda>y. kf y = kf x) xs))) \<or>
           (\<exists>k. map_of m k = Some v \<and> k \<notin> kf ` set xs)"
    by (auto split: if_splits)
  finally show ?thesis .
qed

lemma length_fold_mapSet:
  assumes "distinct (map fst m)"
  shows "length (fold (\<lambda>x. mapSet (kf x) (vf x)) xs m) = card (fst ` set m \<union> kf ` set xs)"
proof -
  let ?M = "fold (\<lambda>x. mapSet (kf x) (vf x)) xs m"
  have "distinct (map fst ?M)" using assms by (rule distinct_fold_mapSet)
  then have "card (set (map fst ?M)) = length (map fst ?M)" by (rule distinct_card)
  then show ?thesis by (simp add: keys_fold_mapSet)
qed

lemma keyed_mapSet:
  assumes "\<forall>(k, h) \<in> set m. key h = k" and "key v = k0"
  shows "\<forall>(k, h) \<in> set (mapSet k0 v m). key h = k"
  using assms by (induction m) (auto split: if_splits)

lemma keyed_fold_mapSet:
  assumes "\<forall>(k, h) \<in> set m. key h = k" and "\<And>x. key (vf x) = kf x"
  shows "\<forall>(k, h) \<in> set (fold (\<lambda>x. mapSet (kf x) (vf x)) xs m). key h = k"
  using assms(1)
proof (induction xs arbitrary: m)
  case Nil
  then show ?case by simp
next
  case (Cons x xs)
  have "\<forall>(k, h) \<in> set (mapSet (kf x) (vf x) m). key h = k"
    using Cons.prems assms(2) by (rule keyed_mapSet)
  then show ?case using Cons.IH by simp
qed

lemma keyed_values:
  assumes "\<forall>(k, h) \<in> set m. key h = k"
  shows "map key (mapValues m) = map fst m"
  using assms by (induction m) (auto simp: mapValues_def)

lemma dedupe_map_keys:
  "map toKey (dedupe xs) = map fst (fold (\<lambda>h. mapSet (toKey h) h) xs [])"
proof -
  have "\<forall>(k, h) \<in> set (fold (\<lambda>h. mapSet (toKey h) h) xs []). toKey h = k"
    by (rule keyed_fold_mapSet) simp_all
  then show ?thesis unfolding dedupe_def by (rule keyed_values)
qed

lemma dedupe_distinct: "distinct (map toKey (dedupe xs))"
  by (simp add: dedupe_map_keys distinct_fold_mapSet)

lemma dedupe_keys: "toKey ` set (dedupe xs) = toKey ` set xs"
proof -
  have "toKey ` set (dedupe xs) = set (map toKey (dedupe xs))" by simp
  also have "\<dots> = fst ` set (fold (\<lambda>h. mapSet (toKey h) h) xs [])"
    by (simp only: dedupe_map_keys set_map)
  finally show ?thesis by (simp add: keys_fold_mapSet)
qed

lemma dedupe_length: "length (dedupe xs) = card (toKey ` set xs)"
proof -
  have "length (dedupe xs) = length (fold (\<lambda>h. mapSet (toKey h) h) xs [])"
    by (simp add: dedupe_def mapValues_def)
  then show ?thesis by (simp add: length_fold_mapSet)
qed

lemma dedupe_member:
  "h \<in> set (dedupe xs) \<longleftrightarrow> (\<exists>x \<in> set xs. h = last (filter (\<lambda>y. toKey y = toKey x) xs))"
  unfolding dedupe_def by (subst in_values_fold_mapSet) simp_all

lemma last_filter_key:
  assumes "x \<in> set xs"
  shows "kf (last (filter (\<lambda>y. kf y = kf x) xs)) = kf x"
proof -
  from assms have "filter (\<lambda>y. kf y = kf x) xs \<noteq> []" by (auto simp: filter_empty_conv)
  then have "last (filter (\<lambda>y. kf y = kf x) xs) \<in> set (filter (\<lambda>y. kf y = kf x) xs)"
    by (rule last_in_set)
  then show ?thesis by simp
qed

subsection \<open>Deduplication\<close>

text \<open>
  C6. Deduplicating a sequence of records yields exactly as many records as the input
  has distinct keys; every record of the result is the last record of the input that has
  its key, and the last record of every key of the input is in the result.
\<close>

theorem dedupe_last_wins:
  "length (dedupe xs) = card (toKey ` set xs) \<and>
   (\<forall>h \<in> set (dedupe xs). h = last (filter (\<lambda>x. toKey x = toKey h) xs)) \<and>
   (\<forall>x \<in> set xs. last (filter (\<lambda>y. toKey y = toKey x) xs) \<in> set (dedupe xs))"
proof (intro conjI ballI)
  show "length (dedupe xs) = card (toKey ` set xs)" by (rule dedupe_length)
next
  fix h assume "h \<in> set (dedupe xs)"
  then obtain x where x: "x \<in> set xs" and h: "h = last (filter (\<lambda>y. toKey y = toKey x) xs)"
    unfolding dedupe_member by blast
  from x have "toKey h = toKey x" unfolding h by (rule last_filter_key)
  then show "h = last (filter (\<lambda>x. toKey x = toKey h) xs)" using h by simp
next
  fix x assume "x \<in> set xs"
  then show "last (filter (\<lambda>y. toKey y = toKey x) xs) \<in> set (dedupe xs)"
    unfolding dedupe_member by blast
qed

theorem dedupe_last_wins_witness:
  "dedupe [hospA, hospB, hospA2] = [hospA2, hospB] \<and>
   length (dedupe [hospA, hospB, hospA2]) = card (toKey ` set [hospA, hospB, hospA2]) \<and>
   hospA2 \<in> set (dedupe [hospA, hospB, hospA2]) \<and>
   hospA2 = last (filter (\<lambda>x. toKey x = toKey hospA2) [hospA, hospB, hospA2]) \<and>
   hospB = last (filter (\<lambda>x. toKey x = toKey hospB) [hospA, hospB, hospA2])"
  using dedupe_last_wins [of "[hospA, hospB, hospA2]"]
  by (simp add: dedupe_def mapValues_def toKey_examples)

subsection \<open>Merging returned rows\<close>

lemma toKey_fromDb: "toKey (fromDb r) = toKey r"
  by (simp add: toKey_def fromDb_def)

lemma toKey_stored: "toKey (stored (toPayload h)) = toKey h"
  by (simp add: toKey_def stored_def toPayload_def)

lemma mapSet_fresh: "k \<notin> fst ` set m \<Longrightarrow> mapSet k v m = m @ [(k, v)]"
  by (induction m) auto

lemma rebuild_keyed:
  assumes "distinct (map fst m)" and "\<forall>(k, h) \<in> set m. key h = k"
    and "fst ` set acc \<inter> fst ` set m = {}"
  shows "fold (\<lambda>p. mapSet (key p) p) (mapValues m) acc = acc @ m"
  using assms
proof (induction m arbitrary: acc)
  case Nil
  then show ?case by (simp add: mapValues_def)
next
  case (Cons e m)
  obtain k h where e: "e = (k, h)" by (cases e)
  from Cons.prems e have kh: "key h = k" and fresh: "k \<notin> fst ` set acc" by auto
  have "fst ` set (acc @ [(k, h)]) \<inter> fst ` set m = {}"
    using Cons.prems e by auto
  with Cons.IH [of "acc @ [(k, h)]"] Cons.prems e
  have "fold (\<lambda>p. mapSet (key p) p) (mapValues m) (acc @ [(k, h)]) = (acc @ [(k, h)]) @ m"
    by simp
  then show ?case
    using kh fresh e by (simp add: mapValues_def mapSet_fresh)
qed

lemma mergeRows_twice: "mergeRows (mergeRows prev d1) d2 = mergeRows prev (d1 @ d2)"
proof -
  let ?P = "fold (\<lambda>p. mapSet (toKey p) p) prev []"
  let ?M = "fold (\<lambda>r. mapSet (toKey r) (fromDb r)) d1 ?P"
  have dP: "distinct (map fst ?P)" by (rule distinct_fold_mapSet) simp
  have kP: "\<forall>(k, h) \<in> set ?P. toKey h = k" by (rule keyed_fold_mapSet) simp_all
  have dM: "distinct (map fst ?M)" using dP by (rule distinct_fold_mapSet)
  have kM: "\<forall>(k, h) \<in> set ?M. toKey h = k"
    using kP by (rule keyed_fold_mapSet) (rule toKey_fromDb)
  have "fold (\<lambda>p. mapSet (toKey p) p) (mapValues ?M) [] = [] @ ?M"
    using dM kM by (rule rebuild_keyed) simp
  then show ?thesis by (simp add: mergeRows_def)
qed

lemma mergeRows_Nil: "mergeRows prev [] = dedupe prev"
  by (simp add: mergeRows_def dedupe_def)

lemma mergeRows_member:
  "h \<in> set (mergeRows prev data) \<longleftrightarrow>
     (\<exists>x \<in> set data. h = fromDb (last (filter (\<lambda>y. toKey y = toKey x) data))) \<or>
     (h \<in> set (dedupe prev) \<and> toKey h \<notin> toKey ` set data)"
proof -
  let ?P = "fold (\<lambda>p. mapSet (toKey p) p) prev []"
  have dP: "distinct (map fst ?P)" by (rule distinct_fold_mapSet) simp
  have kP: "\<forall>(k, h) \<in> set ?P. toKey h = k" by (rule keyed_fold_mapSet) simp_all
  have P: "(\<exists>k. map_of ?P k = Some h \<and> k \<notin> toKey ` set data) \<longleftrightarrow>
           (h \<in> set (dedupe prev) \<and> toKey h \<notin> toKey ` set data)"
  proof
    assume "\<exists>k. map_of ?P k = Some h \<and> k \<notin> toKey ` set data"
    then obtain k where k: "map_of ?P k = Some h" "k \<notin> toKey ` set data" by blast
    then have "(k, h) \<in> set ?P" by (simp add: map_of_SomeD)
    with kP have "toKey h = k" by blast
    moreover have "h \<in> set (dedupe prev)"
      unfolding dedupe_def using dP k(1) by (auto simp: in_mapValues_iff)
    ultimately show "h \<in> set (dedupe prev) \<and> toKey h \<notin> toKey ` set data"
      using k(2) by simp
  next
    assume a: "h \<in> set (dedupe prev) \<and> toKey h \<notin> toKey ` set data"
    then obtain k where k: "map_of ?P k = Some h"
      unfolding dedupe_def using dP by (auto simp: in_mapValues_iff)
    then have "(k, h) \<in> set ?P" by (simp add: map_of_SomeD)
    with kP have "toKey h = k" by blast
    with k a show "\<exists>k. map_of ?P k = Some h \<and> k \<notin> toKey ` set data" by blast
  qed
  show ?thesis
    unfolding mergeRows_def using in_values_fold_mapSet [OF dP, of h toKey fromDb data] P
    by simp
qed

lemma mergeRows_keys: "toKey ` set (mergeRows prev data) = toKey ` set prev \<union> toKey ` set data"
proof -
  let ?P = "fold (\<lambda>p. mapSet (toKey p) p) prev []"
  let ?M = "fold (\<lambda>r. mapSet (toKey r) (fromDb r)) data ?P"
  have kP: "\<forall>(k, h) \<in> set ?P. toKey h = k" by (rule keyed_fold_mapSet) simp_all
  have kM: "\<forall>(k, h) \<in> set ?M. toKey h = k"
    using kP by (rule keyed_fold_mapSet) (rule toKey_fromDb)
  then have "map toKey (mergeRows prev data) = map fst ?M"
    unfolding mergeRows_def by (rule keyed_values)
  then have "set (map toKey (mergeRows prev data)) = fst ` set ?M"
    by simp
  then show ?thesis by (simp add: keys_fold_mapSet Un_commute)
qed

lemma mergeRows_at_key:
  assumes "r \<in> set data" and "h \<in> set (mergeRows prev data)" and "toKey h = toKey r"
  shows "h = fromDb (last (filter (\<lambda>y. toKey y = toKey r) data))"
proof -
  from assms(2) consider
    x where "x \<in> set data" "h = fromDb (last (filter (\<lambda>y. toKey y = toKey x) data))"
    | "toKey h \<notin> toKey ` set data"
    unfolding mergeRows_member by blast
  then show ?thesis
  proof cases
    case 1
    have "toKey h = toKey x"
      unfolding 1(2) toKey_fromDb using 1(1) by (rule last_filter_key)
    with assms(3) 1(2) show ?thesis by simp
  next
    case 2
    with assms(1,3) show ?thesis by auto
  qed
qed

lemma upsertChunks_stop:
  "length uniq \<le> i \<Longrightarrow> upsertChunks upsert uniq i (st, sent) = (st, sent)"
  by (subst upsertChunks.simps) simp

lemma upsertChunks_step:
  "i < length uniq \<Longrightarrow>
   upsertChunks upsert uniq i (st, sent) =
     upsertChunks upsert uniq (i + chunkSize)
       (afterUpsert st (upsert (length sent) (map toPayload (take chunkSize (drop i uniq)))),
        sent @ [map toPayload (take chunkSize (drop i uniq))])"
  by (subst upsertChunks.simps) (simp add: Let_def)

lemma upsertChunks_sent:
  "concat (snd (upsertChunks upsert uniq i (st, sent))) = concat sent @ map toPayload (drop i uniq)"
proof (induction upsert uniq i "(st, sent)" arbitrary: st sent rule: upsertChunks.induct)
  case (1 upsert uniq i st sent)
  show ?case
  proof (cases "i < length uniq")
    case True
    have "take chunkSize (drop i uniq) @ drop (i + chunkSize) uniq = drop i uniq"
      by (metis add.commute append_take_drop_id drop_drop)
    then have "map toPayload (take chunkSize (drop i uniq)) @ map toPayload (drop (i + chunkSize) uniq)
        = map toPayload (drop i uniq)"
      by (metis map_append)
    with True "1" [OF True refl refl] show ?thesis
      by (simp add: upsertChunks_step)
  next
    case False
    then show ?thesis by (simp add: upsertChunks_stop)
  qed
qed

lemma reconcile_snd: "snd (reconcile upsert uniq st) = snd (upsertChunks upsert uniq 0 (st, []))"
  by (simp add: reconcile_def split: prod.splits)

lemma reconcile_hospitals:
  "hospitals (fst (reconcile upsert uniq st)) =
     (if hospitals (fst (upsertChunks upsert uniq 0 (st, []))) \<noteq> []
      then hospitals (fst (upsertChunks upsert uniq 0 (st, []))) else uniq)"
  by (simp add: reconcile_def split: prod.splits)

lemma reconcile_error:
  "error (fst (reconcile upsert uniq st)) = error (fst (upsertChunks upsert uniq 0 (st, [])))"
  by (simp add: reconcile_def split: prod.splits)

lemma reconcile_sent: "concat (snd (reconcile upsert uniq st)) = map toPayload uniq"
  using upsertChunks_sent [of upsert uniq 0 st "[]"]
  by (simp add: reconcile_snd)

lemma upsertChunks_payloads:
  "(\<forall>pl \<in> set sent. pl \<noteq> [] \<and> length pl \<le> chunkSize \<and> set pl \<subseteq> toPayload ` set uniq) \<Longrightarrow>
   \<forall>pl \<in> set (snd (upsertChunks upsert uniq i (st, sent))).
     pl \<noteq> [] \<and> length pl \<le> chunkSize \<and> set pl \<subseteq> toPayload ` set uniq"
proof (induction upsert uniq i "(st, sent)" arbitrary: st sent rule: upsertChunks.induct)
  case (1 upsert uniq i st sent)
  show ?case
  proof (cases "i < length uniq")
    case True
    let ?chunk = "take chunkSize (drop i uniq)"
    have "set ?chunk \<subseteq> set uniq"
      using set_take_subset [of chunkSize "drop i uniq"] set_drop_subset [of i uniq] by blast
    then have sub: "set (map toPayload ?chunk) \<subseteq> toPayload ` set uniq"
      by auto
    have ne: "map toPayload ?chunk \<noteq> []"
      using True by (simp add: chunkSize_def)
    have le: "length (map toPayload ?chunk) \<le> chunkSize"
      by simp
    have "\<forall>pl \<in> set (sent @ [map toPayload ?chunk]).
        pl \<noteq> [] \<and> length pl \<le> chunkSize \<and> set pl \<subseteq> toPayload ` set uniq"
      using "1.prems" sub ne le by simp
    with "1.hyps" [OF True refl refl] True show ?thesis
      by (simp add: upsertChunks_step)
  next
    case False
    with "1.prems" show ?thesis by (simp add: upsertChunks_stop)
  qed
qed

lemma reconcile_payloads:
  "\<forall>pl \<in> set (snd (reconcile upsert uniq st)).
     pl \<noteq> [] \<and> length pl \<le> chunkSize \<and> set pl \<subseteq> toPayload ` set uniq"
  using upsertChunks_payloads [of "[]" uniq upsert 0 st]
  by (simp add: reconcile_snd)

lemma emergency_fromDb:
  "emergency_available (fromDb r) = Some (emergency_available r = Some True)"
  by (cases "emergency_available r") (simp_all add: fromDb_def)

subsection \<open>What is sent and what is merged back\<close>

text \<open>
  C9. The payloads sent to the store in a run are, taken together and in order, the
  six-column rows made from the deduplicated hospitals (a payload row has the columns
  name, address, latitude, longitude, phone and specialities and no other); every payload
  is a non-empty list of at most 200 such rows, and such a row does not depend on the
  hospital's emergency flag. When returned rows are merged,
  the record made from the last returned row of a key is in the result, and every record
  of the result under the key of a returned row has that row's emergency flag, or false
  when the row has none, whatever the hospitals held before were.
\<close>

theorem payload_and_merged_flag:
  "concat (snd (reconcile upsert uniq st)) = map toPayload uniq \<and>
   (\<forall>pl \<in> set (snd (reconcile upsert uniq st)).
      pl \<noteq> [] \<and> length pl \<le> chunkSize \<and> set pl \<subseteq> toPayload ` set uniq) \<and>
   toPayload (h\<lparr>emergency_available := e\<rparr>) = toPayload h \<and>
   (\<forall>r \<in> set data.
      fromDb (last (filter (\<lambda>y. toKey y = toKey r) data)) \<in> set (mergeRows prev data) \<and>
      (\<forall>h \<in> set (mergeRows prev data). toKey h = toKey r \<longrightarrow>
         emergency_available h =
           Some (emergency_available (last (filter (\<lambda>y. toKey y = toKey r) data)) = Some True)))"
proof (intro conjI ballI impI)
  show "concat (snd (reconcile upsert uniq st)) = map toPayload uniq"
    by (rule reconcile_sent)
  show "pl \<noteq> []" and "length pl \<le> chunkSize" and "set pl \<subseteq> toPayload ` set uniq"
    if "pl \<in> set (snd (reconcile upsert uniq st))" for pl
    using reconcile_payloads [of upsert uniq st] that by blast+
  show "toPayload (h\<lparr>emergency_available := e\<rparr>) = toPayload h"
    by (simp add: toPayload_def)
next
  fix r assume "r \<in> set data"
  then show "fromDb (last (filter (\<lambda>y. toKey y = toKey r) data)) \<in> set (mergeRows prev data)"
    unfolding mergeRows_member by blast
next
  fix r h assume "r \<in> set data" and "h \<in> set (mergeRows prev data)" and "toKey h = toKey r"
  then have "h = fromDb (last (filter (\<lambda>y. toKey y = toKey r) data))"
    by (rule mergeRows_at_key)
  then show "emergency_available h =
           Some (emergency_available (last (filter (\<lambda>y. toKey y = toKey r) data)) = Some True)"
    by (simp add: emergency_fromDb)
qed

theorem payload_and_merged_flag_witness:
  "emergency_available hospA2 = Some True \<and>
   concat (snd (reconcile echoStore [hospA2] initialState)) = [toPayload hospA2] \<and>
   mergeRows [hospA2] [stored (toPayload hospA2)] = [fromDb (stored (toPayload hospA2))] \<and>
   emergency_available (fromDb (stored (toPayload hospA2))) = Some False"
  using payload_and_merged_flag [where upsert = echoStore and uniq = "[hospA2]"
      and st = initialState and data = "[stored (toPayload hospA2)]" and prev = "[hospA2]"]
  by (simp add: mergeRows_def mapValues_def toKey_stored toKey_fromDb toKey_hospA2)
    (simp add: hospA2_def stored_def fromDb_def)

subsection \<open>A run of three chunks whose second upsert fails\<close>

lemma three_chunks:
  assumes "2 * chunkSize < length uniq" and "length uniq \<le> 3 * chunkSize"
  shows "upsertChunks upsert uniq 0 (st, []) =
     (afterUpsert (afterUpsert (afterUpsert st
          (upsert 0 (map toPayload (take chunkSize uniq))))
          (upsert 1 (map toPayload (take chunkSize (drop chunkSize uniq)))))
          (upsert 2 (map toPayload (drop (2 * chunkSize) uniq))),
      [map toPayload (take chunkSize uniq),
       map toPayload (take chunkSize (drop chunkSize uniq)),
       map toPayload (drop (2 * chunkSize) uniq)])"
proof -
  have l0: "0 < length uniq" and l1: "chunkSize < length uniq"
    and l2: "chunkSize + chunkSize < length uniq"
    and l3: "length uniq \<le> chunkSize + chunkSize + chunkSize"
    using assms by auto
  have t: "take chunkSize (drop (chunkSize + chunkSize) uniq) = drop (chunkSize + chunkSize) uniq"
    using l3 by simp
  show ?thesis
    by (simp add: upsertChunks_step [OF l0] upsertChunks_step [OF l1] upsertChunks_step [OF l2]
        upsertChunks_stop [OF l3] t mult_2 numeral_2_eq_2)
qed

lemma mergeRows_nonempty: "data \<noteq> [] \<Longrightarrow> mergeRows prev data \<noteq> []"
proof
  assume "data \<noteq> []" and "mergeRows prev data = []"
  then have "toKey ` set prev \<union> toKey ` set data = {}"
    using mergeRows_keys [of prev data] by simp
  with \<open>data \<noteq> []\<close> show False by simp
qed

lemma reconcile_three_chunks:
  assumes "2 * chunkSize < length uniq" and "length uniq \<le> 3 * chunkSize"
    and "upsert 0 (map toPayload (take chunkSize uniq)) = Success (Some d1)"
    and "upsert 1 (map toPayload (take chunkSize (drop chunkSize uniq))) = Failure e"
    and "upsert 2 (map toPayload (drop (2 * chunkSize) uniq)) = Success (Some d3)"
  shows "hospitals (fst (reconcile upsert uniq st)) =
           (if mergeRows (hospitals st) (d1 @ d3) \<noteq> [] then mergeRows (hospitals st) (d1 @ d3)
            else uniq)"
    and "error (fst (reconcile upsert uniq st)) = Some (''Supabase upsert error: '' @ e)"
  using assms(3-5)
  by (simp_all add: reconcile_hospitals reconcile_error three_chunks [OF assms(1,2)]
      afterUpsert_def mergeRows_twice)

text \<open>
  C1, as amended. In a run of three chunks in which the upserts of the first and the third
  chunk return the rows \<open>d1\<close> and \<open>d3\<close> and the upsert of the second fails, the
  error of the second is shown, and the hospitals afterwards are the hospitals held before
  the run with \<open>d1\<close> and \<open>d3\<close> merged in: for every returned row, the record made
  from the last returned row with its key is among them. The hospitals of the second chunk
  are not added: when a row was returned, the keys afterwards are those held before and
  those returned. (Only if nothing was held and nothing returned are the hospitals the
  deduplicated input.)
\<close>

theorem partial_failure_result:
  assumes "2 * chunkSize < length uniq" and "length uniq \<le> 3 * chunkSize"
    and "upsert 0 (map toPayload (take chunkSize uniq)) = Success (Some d1)"
    and "upsert 1 (map toPayload (take chunkSize (drop chunkSize uniq))) = Failure e"
    and "upsert 2 (map toPayload (drop (2 * chunkSize) uniq)) = Success (Some d3)"
    and "reconcile upsert uniq st = (st', sent)"
  shows "hospitals st' =
           (if mergeRows (hospitals st) (d1 @ d3) \<noteq> [] then mergeRows (hospitals st) (d1 @ d3)
            else uniq) \<and>
         error st' = Some (''Supabase upsert error: '' @ e) \<and>
         (\<forall>r \<in> set (d1 @ d3).
            fromDb (last (filter (\<lambda>y. toKey y = toKey r) (d1 @ d3))) \<in> set (hospitals st')) \<and>
         (d1 @ d3 \<noteq> [] \<longrightarrow>
            toKey ` set (hospitals st') = toKey ` set (hospitals st) \<union> toKey ` set (d1 @ d3))"
proof -
  have h: "hospitals st' =
           (if mergeRows (hospitals st) (d1 @ d3) \<noteq> [] then mergeRows (hospitals st) (d1 @ d3)
            else uniq)"
    and e: "error st' = Some (''Supabase upsert error: '' @ e)"
    using reconcile_three_chunks [OF assms(1-5), of st] assms(6) by simp_all
  have m: "hospitals st' = mergeRows (hospitals st) (d1 @ d3)" if "d1 @ d3 \<noteq> []"
    using h mergeRows_nonempty [OF that] by simp
  have "fromDb (last (filter (\<lambda>y. toKey y = toKey r) (d1 @ d3))) \<in> set (hospitals st')"
    if "r \<in> set (d1 @ d3)" for r
  proof -
    from that have "d1 @ d3 \<noteq> []" by auto
    then have eq: "hospitals st' = mergeRows (hospitals st) (d1 @ d3)" by (rule m)
    have "fromDb (last (filter (\<lambda>y. toKey y = toKey r) (d1 @ d3)))
        \<in> set (mergeRows (hospitals st) (d1 @ d3))"
      unfolding mergeRows_member using that by blast
    then show ?thesis by (simp only: eq)
  qed
  moreover have "toKey ` set (hospitals st') = toKey ` set (hospitals st) \<union> toKey ` set (d1 @ d3)"
    if "d1 @ d3 \<noteq> []"
    unfolding m [OF that] by (rule mergeRows_keys)
  ultimately show ?thesis using h e by blast
qed

lemma rounded_mkRow: "rounded 6 (latitude (mkRow i)) = (False, 1000 * i)"
proof -
  have "\<bar>of_nat i / 1000 :: rat\<bar> * 10 ^ 6 + 1 / 2 = of_int (int (1000 * i)) + 1 / 2"
    by simp
  moreover have "\<lfloor>of_int (int (1000 * i)) + 1 / 2 :: rat\<rfloor> = int (1000 * i)"
    by (rule floor_unique) simp_all
  ultimately have "nat \<lfloor>\<bar>of_nat i / 1000 :: rat\<bar> * 10 ^ 6 + 1 / 2\<rfloor> = 1000 * i"
    by (simp only: nat_int)
  then show ?thesis
    by (simp add: rounded_def mkRow_def)
qed

lemma toKey_mkRow: "toKey (mkRow i) = toKey (mkRow j) \<longleftrightarrow> i = j"
  by (simp add: toKey_eq_iff rounded_mkRow) (simp add: mkRow_def)

lemma rows401_chunks:
  "length rows401 = 401"
  "take chunkSize rows401 = map mkRow [1..<201]"
  "take chunkSize (drop chunkSize rows401) = map mkRow [201..<401]"
  "drop (2 * chunkSize) rows401 = [mkRow 401]"
  by (simp_all add: rows401_def chunkSize_def take_map drop_map)

lemma failSecond_run:
  "failSecond 0 (map toPayload (take chunkSize rows401)) =
     Success (Some (map (stored \<circ> toPayload \<circ> mkRow) [1..<201]))"
  "failSecond 1 (map toPayload (take chunkSize (drop chunkSize rows401))) = Failure ''gateway timeout''"
  "failSecond 2 (map toPayload (drop (2 * chunkSize) rows401)) =
     Success (Some [stored (toPayload (mkRow 401))])"
  by (simp_all add: failSecond_def rows401_chunks del: upt_rec_numeral)

lemma stored_keys: "toKey ` set (map (stored \<circ> toPayload \<circ> f) xs) = toKey ` f ` set xs"
  by (induction xs) (simp_all add: toKey_stored)

lemma returned_keys:
  "toKey ` set (map (stored \<circ> toPayload \<circ> mkRow) [1..<201] @ [stored (toPayload (mkRow 401))]) =
     toKey ` mkRow ` ({1..<201} \<union> {401})"
proof -
  have "toKey ` set (map (stored \<circ> toPayload \<circ> mkRow) [1..<201]) = toKey ` mkRow ` {1..<201}"
    by (simp only: stored_keys set_upt)
  moreover have "toKey ` set [stored (toPayload (mkRow 401))] = toKey ` mkRow ` {401}"
    by (simp add: toKey_stored)
  ultimately show ?thesis
    by (simp only: set_append image_Un)
qed

lemma last_filter_snoc: "P x \<Longrightarrow> last (filter P (xs @ [x])) = x"
  by simp

lemma failSecond_result:
  "hospitals (fst (reconcile failSecond rows401 initialState)) =
     mergeRows [] (map (stored \<circ> toPayload \<circ> mkRow) [1..<201] @ [stored (toPayload (mkRow 401))])"
proof -
  define d1 where "d1 = map (stored \<circ> toPayload \<circ> mkRow) [1..<201]"
  define d3 where "d3 = [stored (toPayload (mkRow 401))]"
  have len: "2 * chunkSize < length rows401" "length rows401 \<le> 3 * chunkSize"
    by (simp_all add: rows401_chunks chunkSize_def)
  have ne: "d1 @ d3 \<noteq> []" by (simp add: d3_def)
  have "hospitals (fst (reconcile failSecond rows401 initialState)) =
      (if mergeRows (hospitals initialState) (d1 @ d3) \<noteq> []
       then mergeRows (hospitals initialState) (d1 @ d3) else rows401)"
    unfolding d1_def d3_def by (rule reconcile_three_chunks(1) [OF len failSecond_run])
  then have "hospitals (fst (reconcile failSecond rows401 initialState)) = mergeRows [] (d1 @ d3)"
    using mergeRows_nonempty [OF ne, of "[]"] by (simp add: initialState_def)
  then show ?thesis by (simp only: d1_def d3_def)
qed

theorem partial_failure_result_witness:
  "error (fst (reconcile failSecond rows401 initialState)) = Some ''Supabase upsert error: gateway timeout'' \<and>
   fromDb (stored (toPayload (mkRow 401))) \<in> set (hospitals (fst (reconcile failSecond rows401 initialState))) \<and>
   toKey ` set (hospitals (fst (reconcile failSecond rows401 initialState))) =
     toKey ` mkRow ` ({1..<201} \<union> {401})"
proof -
  define d1 where "d1 = map (stored \<circ> toPayload \<circ> mkRow) [1..<201]"
  define r3 where "r3 = stored (toPayload (mkRow 401))"
  define final where "final = fst (reconcile failSecond rows401 initialState)"
  have len: "2 * chunkSize < length rows401" "length rows401 \<le> 3 * chunkSize"
    by (simp_all add: rows401_chunks chunkSize_def)
  have pair: "reconcile failSecond rows401 initialState =
      (final, snd (reconcile failSecond rows401 initialState))"
    by (simp add: final_def)
  have run: "failSecond 0 (map toPayload (take chunkSize rows401)) = Success (Some d1)"
    "failSecond 1 (map toPayload (take chunkSize (drop chunkSize rows401))) = Failure ''gateway timeout''"
    "failSecond 2 (map toPayload (drop (2 * chunkSize) rows401)) = Success (Some [r3])"
    unfolding d1_def r3_def by (rule failSecond_run)+
  have keys: "toKey ` set (d1 @ [r3]) = toKey ` mkRow ` ({1..<201} \<union> {401})"
    unfolding d1_def r3_def by (rule returned_keys)
  have last: "last (filter (\<lambda>y. toKey y = toKey r3) (d1 @ [r3])) = r3"
    by (rule last_filter_snoc) simp
  have mem: "r3 \<in> set (d1 @ [r3])" by simp
  have ne: "d1 @ [r3] \<noteq> []" by simp
  have prev: "hospitals initialState = []" by (simp add: initialState_def)
  from partial_failure_result [OF len run pair]
  have "error final = Some (''Supabase upsert error: '' @ ''gateway timeout'')"
    and "\<forall>r \<in> set (d1 @ [r3]). fromDb (last (filter (\<lambda>y. toKey y = toKey r) (d1 @ [r3]))) \<in> set (hospitals final)"
    and "d1 @ [r3] \<noteq> [] \<longrightarrow>
      toKey ` set (hospitals final) = toKey ` set (hospitals initialState) \<union> toKey ` set (d1 @ [r3])"
    by blast+
  with mem last ne keys prev
  have "error final = Some ''Supabase upsert error: gateway timeout''"
    and "fromDb r3 \<in> set (hospitals final)"
    and "toKey ` set (hospitals final) = toKey ` mkRow ` ({1..<201} \<union> {401})"
    by (force, metis, simp)
  then show ?thesis
    by (simp only: final_def r3_def)
qed

text \<open>
  C1 as stated fails: of 401 hospitals, sent in chunks of 200, 200 and 1 to a store that
  fails for the second chunk only, the 201st (the first of the second chunk) is in the
  result in no version: no hospital of the result has its key.
\<close>

theorem partial_failure_counterexample:
  "2 * chunkSize < length rows401 \<and> length rows401 \<le> 3 * chunkSize \<and>
   failSecond 1 (map toPayload (take chunkSize (drop chunkSize rows401))) = Failure ''gateway timeout'' \<and>
   mkRow 201 \<in> set (take chunkSize (drop chunkSize rows401)) \<and>
   toKey (mkRow 201) \<notin> toKey ` set (hospitals (fst (reconcile failSecond rows401 initialState)))"
proof -
  have len: "2 * chunkSize < length rows401" "length rows401 \<le> 3 * chunkSize"
    by (simp_all add: rows401_chunks chunkSize_def)
  have "toKey ` set (hospitals (fst (reconcile failSecond rows401 initialState))) =
      toKey ` mkRow ` ({1..<201} \<union> {401})"
    by (simp only: failSecond_result mergeRows_keys returned_keys) simp
  then have "toKey (mkRow 201) \<notin> toKey ` set (hospitals (fst (reconcile failSecond rows401 initialState)))"
    by (auto simp: toKey_mkRow)
  moreover have "mkRow 201 \<in> set (take chunkSize (drop chunkSize rows401))"
    by (simp only: rows401_chunks set_map set_upt) simp
  ultimately show ?thesis
    using len failSecond_run(2) by blast
qed

subsection \<open>The fallback to the deduplicated input\<close>

lemma afterUpsert_no_rows:
  "noRows r \<Longrightarrow> hospitals st = [] \<Longrightarrow> hospitals (afterUpsert st r) = []"
  by (auto simp: noRows_def afterUpsert_def mergeRows_def mapValues_def
      split: response.splits option.splits)

lemma upsertChunks_no_rows:
  "(\<forall>k pl. noRows (upsert k pl)) \<Longrightarrow> hospitals st = [] \<Longrightarrow>
   hospitals (fst (upsertChunks upsert uniq i (st, sent))) = []"
proof (induction upsert uniq i "(st, sent)" arbitrary: st sent rule: upsertChunks.induct)
  case (1 upsert uniq i st sent)
  show ?case
  proof (cases "i < length uniq")
    case True
    from "1.prems" have "noRows (upsert (length sent) (map toPayload (take chunkSize (drop i uniq))))"
      by blast
    then have "hospitals (afterUpsert st (upsert (length sent)
        (map toPayload (take chunkSize (drop i uniq))))) = []"
      using "1.prems"(2) by (rule afterUpsert_no_rows)
    with "1.hyps" [OF True refl refl "1.prems"(1)] True show ?thesis
      by (simp add: upsertChunks_step)
  next
    case False
    with "1.prems" show ?thesis by (simp add: upsertChunks_stop)
  qed
qed

lemma fallback_when_empty:
  assumes "\<forall>k pl. noRows (upsert k pl)" and "hospitals st = []"
  shows "hospitals (fst (reconcile upsert uniq st)) = uniq"
  using upsertChunks_no_rows [OF assms, of uniq 0 "[]"]
  by (simp add: reconcile_hospitals)

lemma normalize_elA_elB: "normalize [elA, elB] = [hospA, hospB]"
  by (simp add: normalize_def List.map_filter_simps mapElement_def elA_def elB_def hospA_def
      hospB_def nullish_def truthyNum_def truthy_def orElse_def tag_def Let_def)

lemma normalize_elB: "normalize [elB] = [hospB]"
  by (simp add: normalize_def List.map_filter_simps mapElement_def elB_def
      hospB_def nullish_def truthyNum_def truthy_def orElse_def tag_def Let_def)

lemma one_chunk:
  assumes "uniq \<noteq> []" and "length uniq \<le> chunkSize"
  shows "upsertChunks upsert uniq 0 (st, []) =
           (afterUpsert st (upsert 0 (map toPayload uniq)), [map toPayload uniq])"
proof -
  have l0: "0 < length uniq"
    using assms by simp
  show ?thesis
    using assms(2) by (simp add: upsertChunks_step [OF l0] upsertChunks_stop)
qed

text \<open>
  C5 at an input where the code departs from it: the component already holds \<open>hospA\<close>
  from an earlier run, the provider delivers \<open>elB\<close>, and the upsert fails. The
  deduplicated input is \<open>hospB\<close>, the store has returned no row, and the hospitals
  shown afterwards are still \<open>hospA\<close> alone. (When no hospital is held before the run,
  the result is the deduplicated input: \<open>fallback_when_empty\<close>.)
\<close>

theorem stale_result_kept:
  "dedupe (normalize [elB]) = [hospB] \<and>
   noRows (failAll 0 [toPayload hospB]) \<and>
   syncHospitalsAround (Json (Some [elB])) failAll (initialState\<lparr>hospitals := [hospA]\<rparr>) =
     (None,
      initialState\<lparr>hospitals := [hospA], error := Some ''Supabase upsert error: service unavailable''\<rparr>,
      [[toPayload hospB]])"
proof -
  have d: "dedupe (normalize [elB]) = [hospB]"
    by (simp add: normalize_elB dedupe_def mapValues_def)
  have "upsertChunks failAll [hospB] 0 (st, []) =
      (afterUpsert st (failAll 0 (map toPayload [hospB])), [map toPayload [hospB]])" for st
    by (rule one_chunk) (simp_all add: chunkSize_def)
  then show ?thesis
    by (simp add: syncHospitalsAround_def d reconcile_def afterUpsert_def failAll_def
        noRows_def initialState_def Let_def)
qed

subsection \<open>The end-to-end example\<close>

text \<open>
  C4, as amended. The two elements normalise to two hospitals, A and B. Their keys are
  40.000000|-73.000000 and 40.000001|-73.000001, which differ in the 6th decimal, so
  deduplication keeps both, in the order A, B; and the run sends one upsert, of two rows.
\<close>

theorem end_to_end_example:
  "normalize [elA, elB] = [hospA, hospB] \<and>
   toKey hospA = ''40.000000|-73.000000'' \<and> toKey hospB = ''40.000001|-73.000001'' \<and>
   dedupe (normalize [elA, elB]) = [hospA, hospB] \<and>
   snd (snd (syncHospitalsAround (Json (Some [elA, elB])) upsert st)) =
     [[toPayload hospA, toPayload hospB]]"
proof -
  have d: "dedupe (normalize [elA, elB]) = [hospA, hospB]"
    by (simp add: normalize_elA_elB dedupe_pair toKey_examples)
  have "upsertChunks upsert [hospA, hospB] 0 (st', []) =
      (afterUpsert st' (upsert 0 (map toPayload [hospA, hospB])), [map toPayload [hospA, hospB]])" for st'
    by (rule one_chunk) (simp_all add: chunkSize_def)
  then have "snd (snd (syncHospitalsAround (Json (Some [elA, elB])) upsert st)) =
     [[toPayload hospA, toPayload hospB]]"
    by (simp add: syncHospitalsAround_def d reconcile_def Let_def)
  with d show ?thesis
    by (simp add: normalize_elA_elB toKey_examples)
qed

text \<open>
  C4 as stated fails: deduplication yields two hospitals, not the single hospital B, and
  the one upsert that is sent has two rows.
\<close>

theorem end_to_end_counterexample:
  "length (normalize [elA, elB]) = 2 \<and>
   length (dedupe (normalize [elA, elB])) = 2 \<and>
   dedupe (normalize [elA, elB]) \<noteq> [hospB] \<and>
   snd (snd (syncHospitalsAround (Json (Some [elA, elB])) echoStore initialState)) =
     [[toPayload hospA, toPayload hospB]]"
proof -
  have d: "dedupe (normalize [elA, elB]) = [hospA, hospB]"
    by (simp add: normalize_elA_elB dedupe_pair toKey_examples)
  have "upsertChunks echoStore [hospA, hospB] 0 (st', []) =
      (afterUpsert st' (echoStore 0 (map toPayload [hospA, hospB])), [map toPayload [hospA, hospB]])" for st'
    by (rule one_chunk) (simp_all add: chunkSize_def)
  then have "snd (snd (syncHospitalsAround (Json (Some [elA, elB])) echoStore initialState)) =
     [[toPayload hospA, toPayload hospB]]"
    by (simp add: syncHospitalsAround_def d reconcile_def Let_def)
  with d show ?thesis
    by (simp add: normalize_elA_elB)
qed

subsection \<open>createAppointmentFor\<close>

lemma create_thrown:
  assumes "tryBody be h (notesMap st (toKey h)) = (tr, Inl m)"
  shows "snd (createAppointmentFor be h st) = tr"
    and "message (fst (createAppointmentFor be h st)) =
           Some (''Error creating appointment: '' @ (if m \<noteq> [] then m else ''Error''))"
    and "notesMap (fst (createAppointmentFor be h st)) = notesMap st"
    and "openNoteIdx (fst (createAppointmentFor be h st)) = openNoteIdx st"
  using assms by (simp_all add: createAppointmentFor_def Let_def)

lemma create_done:
  assumes "tryBody be h (notesMap st (toKey h)) = (tr, Inr a)"
  shows "snd (createAppointmentFor be h st) = tr"
    and "message (fst (createAppointmentFor be h st)) = Some ''Appointment created (status: pending).''"
    and "notesMap (fst (createAppointmentFor be h st)) = (notesMap st)(toKey h := None)"
    and "openNoteIdx (fst (createAppointmentFor be h st)) = None"
  using assms by (simp_all add: createAppointmentFor_def Let_def)


lemma tryBody_no_user:
  assumes "resolveHospital be h = (tr, Inr hid)" and "getUser be = AuthData None"
  shows "tryBody be h note = (tr @ [GetUser], Inl ''User not authenticated'')"
  using assms by (simp add: tryBody_def bookFor_def)


lemma tryBody_user:
  assumes "resolveHospital be h = (tr, Inr hid)" and "getUser be = AuthData (Some u)"
    and "a = \<lparr> user_id = (case firstId (select_profile be (uid u)) of
                              Some p \<Rightarrow> p | None \<Rightarrow> IdStr (uid u)),
               hospital_id = hid, assessment_id = firstId (select_assessment be (uid u)),
               notes' = nt, status = ''pending'' \<rparr>"
    and "tr' = tr @ [GetUser, SelectProfile (uid u), SelectAssessment (uid u), InsertAppointment a]"
  shows "tryBody be h nt =
    (case insert_appointment be a of
       Failure m \<Rightarrow> (tr', Inl (''Appointment insert error: '' @ m))
     | Success rows \<Rightarrow> (tr', Inr a))"
  using assms by (simp add: tryBody_def bookFor_def Let_def split: response.splits)


lemma resolveHospital_calls:
  "fst (resolveHospital be h) =
     (if truthyId (firstId (select_hospital be (latitude h) (longitude h)))
      then [SelectHospital (latitude h) (longitude h)]
      else [SelectHospital (latitude h) (longitude h), InsertHospital (toPayload h)])"
  by (simp add: resolveHospital_def Let_def split: response.splits)

lemma firstId_noRows: "noRows r \<Longrightarrow> firstId r = None"
  by (auto simp: noRows_def firstId_def split: response.splits option.splits list.splits)

text \<open>
  C8. When the hospital's identifier is settled and a user is signed in, the appointment is
  sent to the store whatever the two lookups answered. If the profile lookup fails or
  returns no row, the appointment's user reference is the user's own identifier; if the
  assessment lookup fails or returns no row, its assessment reference is null. The message
  shown afterwards depends on the insert of the appointment alone.
\<close>

theorem lookups_degrade:
  assumes "resolveHospital be h = (tr, Inr hid)" and "getUser be = AuthData (Some u)"
  shows "\<exists>a. snd (createAppointmentFor be h st) =
               tr @ [GetUser, SelectProfile (uid u), SelectAssessment (uid u), InsertAppointment a] \<and>
             (noRows (select_profile be (uid u)) \<longrightarrow> user_id a = IdStr (uid u)) \<and>
             (noRows (select_assessment be (uid u)) \<longrightarrow> assessment_id a = None) \<and>
             hospital_id a = hid \<and> notes' a = notesMap st (toKey h) \<and> status a = ''pending'' \<and>
             message (fst (createAppointmentFor be h st)) =
               (case insert_appointment be a of
                  Failure m \<Rightarrow> Some (''Error creating appointment: Appointment insert error: '' @ m)
                | Success rows \<Rightarrow> Some ''Appointment created (status: pending).'')"
proof -
  define a where "a = \<lparr> user_id = (case firstId (select_profile be (uid u)) of Some p \<Rightarrow> p | None \<Rightarrow> IdStr (uid u)),
                hospital_id = hid, assessment_id = firstId (select_assessment be (uid u)),
                notes' = notesMap st (toKey h), status = ''pending'' \<rparr>"
  let ?tr = "tr @ [GetUser, SelectProfile (uid u), SelectAssessment (uid u), InsertAppointment a]"
  have body: "tryBody be h (notesMap st (toKey h)) =
      (case insert_appointment be a of
          Failure m \<Rightarrow> (?tr, Inl (''Appointment insert error: '' @ m))
        | Success rows \<Rightarrow> (?tr, Inr a))"
    using assms a_def refl by (rule tryBody_user)
  have calls: "snd (createAppointmentFor be h st) = ?tr"
    using body by (cases "insert_appointment be a") (simp_all add: create_thrown(1) create_done(1))
  have msg: "message (fst (createAppointmentFor be h st)) =
               (case insert_appointment be a of
                  Failure m \<Rightarrow> Some (''Error creating appointment: Appointment insert error: '' @ m)
                | Success rows \<Rightarrow> Some ''Appointment created (status: pending).'')"
    using body by (cases "insert_appointment be a") (simp_all add: create_thrown(2) create_done(2))
  have "noRows (select_profile be (uid u)) \<longrightarrow> user_id a = IdStr (uid u)"
    by (simp add: a_def firstId_noRows)
  moreover have "noRows (select_assessment be (uid u)) \<longrightarrow> assessment_id a = None"
    by (simp add: a_def firstId_noRows)
  moreover have "hospital_id a = hid \<and> notes' a = notesMap st (toKey h) \<and> status a = ''pending''"
    by (simp add: a_def)
  ultimately show ?thesis using calls msg by blast
qed

lemmas backend_examples =
  beOk_def beLookupFails_def beUnknown_def beAnonymous_def beInsertFails_def beAuthError_def
  beBookingFails_def

lemma resolve_beOk: "resolveHospital beOk hospA = ([SelectHospital 40 (- 73)], Inr (Some (IdNum 7)))"
  by (simp add: resolveHospital_def beOk_def hospA_def firstId_def)

theorem lookups_degrade_witness:
  "noRows (select_profile beOk ''u1'') \<and> noRows (select_assessment beOk ''u1'') \<and>
   (\<exists>a. snd (createAppointmentFor beOk hospA initialState) =
          [SelectHospital 40 (- 73), GetUser, SelectProfile ''u1'', SelectAssessment ''u1'',
           InsertAppointment a] \<and>
        user_id a = IdStr ''u1'' \<and> assessment_id a = None \<and>
        hospital_id a = Some (IdNum 7)) \<and>
   message (fst (createAppointmentFor beOk hospA initialState)) =
     Some ''Appointment created (status: pending).''"
proof -
  have u: "getUser beOk = AuthData (Some \<lparr> uid = ''u1'' \<rparr>)"
    by (simp add: beOk_def)
  have p: "noRows (select_profile beOk ''u1'')" and q: "noRows (select_assessment beOk ''u1'')"
    by (simp_all add: beOk_def noRows_def)
  have ok: "insert_appointment beOk a = Success (Some [()])" for a
    by (simp add: beOk_def)
  from lookups_degrade [OF resolve_beOk u, of initialState] p q
  show ?thesis by (auto simp: ok)
qed






lemma create_calls: "snd (createAppointmentFor be h st) = fst (tryBody be h (notesMap st (toKey h)))"
  by (simp add: createAppointmentFor_def Let_def split: prod.splits)


lemma hospA_coords: "latitude hospA = 40" "longitude hospA = - 73"
  by (simp_all add: hospA_def)

lemmas workflow_eval =
  createAppointmentFor_def tryBody_def resolveHospital_def bookFor_def firstId_def Let_def
  backend_examples initialState_def hospA_coords toKey_hospA



text \<open>
  C2, as amended. If no user is signed in, no appointment is inserted and neither the
  profile nor the assessment is looked up; unless the insert of the hospital has failed,
  the workflow ends right after the authentication request and reports that the user is
  not authenticated. The only write is the insert of the hospital, which precedes the
  authentication request and is made exactly when the lookup by coordinates gave no
  usable identifier.
\<close>

theorem anonymous_user_aborts:
  assumes "getUser be = AuthData None" and "createAppointmentFor be h st = (st', tr)"
  shows "(\<forall>a. InsertAppointment a \<notin> set tr) \<and>
         (\<forall>u. SelectProfile u \<notin> set tr \<and> SelectAssessment u \<notin> set tr) \<and>
         filter isWrite tr =
           (if truthyId (firstId (select_hospital be (latitude h) (longitude h))) then []
            else [InsertHospital (toPayload h)]) \<and>
         (\<forall>tr0 hid. resolveHospital be h = (tr0, Inr hid) \<longrightarrow>
            tr = tr0 @ [GetUser] \<and>
            message st' = Some ''Error creating appointment: User not authenticated'')"
proof -
  have tr: "tr = fst (tryBody be h (notesMap st (toKey h)))"
    using create_calls [of be h st] assms(2) by simp
  have shape: "tr = fst (resolveHospital be h) \<or> tr = fst (resolveHospital be h) @ [GetUser]"
    unfolding tr using assms(1)
    by (cases "resolveHospital be h")
      (auto simp: tryBody_def bookFor_def split: sum.splits)
  have calls: "fst (resolveHospital be h) =
     (if truthyId (firstId (select_hospital be (latitude h) (longitude h)))
      then [SelectHospital (latitude h) (longitude h)]
      else [SelectHospital (latitude h) (longitude h), InsertHospital (toPayload h)])"
    by (rule resolveHospital_calls)
  have a: "\<forall>a. InsertAppointment a \<notin> set tr"
    using shape calls by (auto split: if_splits)
  have b: "\<forall>u. SelectProfile u \<notin> set tr \<and> SelectAssessment u \<notin> set tr"
    using shape calls by (auto split: if_splits)
  have c: "filter isWrite tr =
           (if truthyId (firstId (select_hospital be (latitude h) (longitude h))) then []
            else [InsertHospital (toPayload h)])"
    using shape calls by (auto split: if_splits)
  have d: "tr = tr0 @ [GetUser] \<and>
            message st' = Some ''Error creating appointment: User not authenticated''"
    if "resolveHospital be h = (tr0, Inr hid)" for tr0 hid
  proof -
    from that assms(1)
    have "tryBody be h (notesMap st (toKey h)) = (tr0 @ [GetUser], Inl ''User not authenticated'')"
      by (rule tryBody_no_user)
    from create_thrown(1,2) [OF this] assms(2) show ?thesis by simp
  qed
  from a b c d show ?thesis by blast
qed

text \<open>
  C2 as stated fails: with no user signed in and a hospital the store does not know, the
  hospital is inserted before the workflow reports that the user is not authenticated.
\<close>

theorem anonymous_user_counterexample:
  "getUser beAnonymous = AuthData None \<and>
   snd (createAppointmentFor beAnonymous hospA initialState) =
     [SelectHospital 40 (- 73), InsertHospital (toPayload hospA), GetUser] \<and>
   filter isWrite (snd (createAppointmentFor beAnonymous hospA initialState)) =
     [InsertHospital (toPayload hospA)] \<and>
   message (fst (createAppointmentFor beAnonymous hospA initialState)) =
     Some ''Error creating appointment: User not authenticated''"
  by (simp add: workflow_eval)

theorem anonymous_user_aborts_witness:
  "getUser beAnonymous = AuthData None \<and>
   resolveHospital beAnonymous hospA =
      ([SelectHospital 40 (- 73), InsertHospital (toPayload hospA)], Inr (Some (IdNum 8))) \<and>
   (\<forall>a. InsertAppointment a \<notin> set (snd (createAppointmentFor beAnonymous hospA initialState))) \<and>
   filter isWrite (snd (createAppointmentFor beAnonymous hospA initialState)) =
     [InsertHospital (toPayload hospA)] \<and>
   message (fst (createAppointmentFor beAnonymous hospA initialState)) =
     Some ''Error creating appointment: User not authenticated''"
proof -
  have u: "getUser beAnonymous = AuthData None"
    by (simp add: backend_examples)
  have r: "resolveHospital beAnonymous hospA =
      ([SelectHospital 40 (- 73), InsertHospital (toPayload hospA)], Inr (Some (IdNum 8)))"
    by (simp add: resolveHospital_def backend_examples firstId_def hospA_coords)
  have n: "\<not> truthyId (firstId (select_hospital beAnonymous (latitude hospA) (longitude hospA)))"
    by (simp add: backend_examples firstId_def)
  have pair: "createAppointmentFor beAnonymous hospA initialState =
      (fst (createAppointmentFor beAnonymous hospA initialState),
       snd (createAppointmentFor beAnonymous hospA initialState))"
    by simp
  from anonymous_user_aborts [OF u pair] u r n show ?thesis by simp
qed

subsection \<open>The processing flag\<close>

text \<open>
  C10. After \<^verbatim>\<open>createAppointmentFor\<close> has run for a hospital, whatever the store
  and the authentication service answered, the processing flag stored under the
  hospital's key is \<^verbatim>\<open>false\<close>.
\<close>

theorem processing_flag_reset:
  "processingMap (fst (createAppointmentFor be h st)) (toKey h) = Some False"
  by (simp add: createAppointmentFor_def Let_def split: prod.splits sum.splits)

end
